theory Spec2Isabelle
  imports Complex_Main "HOL-Library.Sublist"
begin

section \<open>JavaScript values and strings\<close>

text \<open>
  The webhook function receives an arbitrary JSON document. A parsed document is a
  JavaScript value: \<open>null\<close>, a boolean, a number, a string, an array or an object.
  \<open>JUndefined\<close> is what reading a missing property gives; \<open>JSON.parse\<close> never
  produces it. A number is an IEEE double; every finite double is a rational, and the
  model keeps a number as that rational. An object is the list of its own properties,
  read with \<open>map_of\<close>.
  Strings are byte strings (UTF-8).
\<close>

datatype jsval =
    JUndefined
  | JNull
  | JBool bool
  | JNum rat
  | JStr string
  | JArr "jsval list"
  | JObj "(string \<times> jsval) list"

datatype exn = TypeError | SyntaxError | NetworkError

text \<open>
  Arithmetic on doubles: an operation gives the double nearest to its exact result, a
  tie going to the even mantissa. \<open>exponent a\<close> is the \<open>e\<close> with \<open>2^e \<le> a < 2^(e+1)\<close> for
  a positive \<open>a\<close>; a double has 53 bits of mantissa, so its last bit is worth
  \<open>2^(e - 52)\<close>, and \<open>2^(-1074)\<close> below the normal range. Results beyond the largest
  double (about 1.8e308) are outside the model; the operations of this program on the
  numbers of a payload stay below it.
\<close>

fun ilog2 :: "nat \<Rightarrow> nat" where
  "ilog2 n = (if n < 2 then 0 else Suc (ilog2 (n div 2)))"

declare ilog2.simps [simp del]

definition pow2 :: "int \<Rightarrow> rat" where
  "pow2 e = (if 0 \<le> e then 2 ^ nat e else 1 / 2 ^ nat (- e))"

definition exponent :: "rat \<Rightarrow> int" where
  "exponent a =
     (if 1 \<le> a then int (ilog2 (nat \<lfloor>a\<rfloor>))
      else (let k = ilog2 (nat \<lfloor>1 / a\<rfloor>)
            in if a * 2 ^ k = 1 then - int k else - int k - 1))"

definition round_half_even :: "rat \<Rightarrow> int" where
  "round_half_even q =
     (let f = \<lfloor>q\<rfloor>; r = q - of_int f
      in if r < 1 / 2 then f else if 1 / 2 < r then f + 1
         else if even f then f else f + 1)"

definition fl :: "rat \<Rightarrow> rat" where
  "fl x =
     (if x = 0 then 0
      else (let a = \<bar>x\<bar>; u = pow2 (max (exponent a) (- 1022) - 52)
            in sgn x * of_int (round_half_even (a / u)) * u))"

text \<open>Truthiness: \<open>undefined\<close>, \<open>null\<close>, \<open>false\<close>, \<open>0\<close> and \<open>""\<close> are falsy.\<close>

fun truthy :: "jsval \<Rightarrow> bool" where
  "truthy JUndefined = False"
| "truthy JNull = False"
| "truthy (JBool b) = b"
| "truthy (JNum n) = (n \<noteq> 0)"
| "truthy (JStr s) = (s \<noteq> [])"
| "truthy (JArr xs) = True"
| "truthy (JObj kvs) = True"

fun nullish :: "jsval \<Rightarrow> bool" where
  "nullish JUndefined = True"
| "nullish JNull = True"
| "nullish v = False"

text \<open>
  \<open>js_get v k\<close> is \<open>v.k\<close> for the property names the program reads (none of them is a
  built-in property of strings, numbers, booleans or arrays, so only objects answer).
  Reading a property of \<open>null\<close> or \<open>undefined\<close> raises in JavaScript; the program guards
  every nested read by the truthiness of its parent, and the reads of \<open>payload\<close> itself
  are guarded in each function below by \<open>nullish payload\<close>.
\<close>

fun js_get :: "jsval \<Rightarrow> string \<Rightarrow> jsval" where
  "js_get (JObj kvs) k = (case map_of kvs k of Some v \<Rightarrow> v | None \<Rightarrow> JUndefined)"
| "js_get v k = JUndefined"

fun is_string :: "jsval \<Rightarrow> bool" where
  "is_string (JStr s) = True"
| "is_string v = False"

text \<open>\<open>a || b\<close> on values.\<close>

definition js_or :: "jsval \<Rightarrow> jsval \<Rightarrow> jsval" where
  "js_or a b = (if truthy a then a else b)"

definition lower_char :: "char \<Rightarrow> char" where
  "lower_char c =
     (case map_of (zip ''ABCDEFGHIJKLMNOPQRSTUVWXYZ'' ''abcdefghijklmnopqrstuvwxyz'') c of
        Some l \<Rightarrow> l | None \<Rightarrow> c)"

text \<open>
  The folding of the ASCII letters \<open>A\<close> to \<open>Z\<close>, every other byte kept. JavaScript's
  \<open>toLowerCase\<close> folds every cased letter of Unicode; where the program folds the text
  of a summary, a transcript or an end reason, that folding is a parameter of the model
  (\<open>String_toLowerCase\<close> below), and this function is what it does to ASCII text. This
  function is used for the status test of \<open>determineCallStatus\<close>, where the two foldings
  decide alike: the folded text contains "fail" under the one exactly when it does under
  the other, because the only characters outside ASCII that fold to an ASCII letter are
  U+0130 (to an i followed by a combining dot, which is never the i of "fail") and U+212A
  (to k). It is also the folding of the repository's \<open>ilike\<close>.
\<close>

definition toLowerCase :: "string \<Rightarrow> string" where
  "toLowerCase s = map lower_char s"

text \<open>\<open>s.includes(t)\<close>: \<open>t\<close> occurs in \<open>s\<close> as a contiguous substring.\<close>

fun js_includes :: "string \<Rightarrow> string \<Rightarrow> bool" where
  "js_includes [] t = (t = [])"
| "js_includes (c # cs) t = (prefix t (c # cs) \<or> js_includes cs t)"

text \<open>\<open>s.endsWith(t)\<close>.\<close>

definition endsWith :: "string \<Rightarrow> string \<Rightarrow> bool" where
  "endsWith s t = (length t \<le> length s \<and> drop (length s - length t) s = t)"

text \<open>\<open>s.slice(-n)\<close> for a positive \<open>n\<close>: the last \<open>n\<close> characters, all of \<open>s\<close> when it is shorter.\<close>

definition slice_last :: "nat \<Rightarrow> string \<Rightarrow> string" where
  "slice_last n s = drop (length s - n) s"

text \<open>\<open>s.replace(/\D/g, '')\<close>: the ASCII digits of \<open>s\<close>, in order.\<close>

definition is_digit :: "char \<Rightarrow> bool" where
  "is_digit c = (c \<in> set ''0123456789'')"

definition replace_nondigits :: "string \<Rightarrow> string" where
  "replace_nondigits s = filter is_digit s"

text \<open>
  The host's coercions. \<open>ToString\<close> and \<open>ToNumber\<close> are ECMAScript's conversions of a
  value that is not yet a string (a number); they are not code of this program and are
  parameters of the model, as is \<open>JSON.parse\<close>. Both raise on an object that cannot be
  made primitive; \<open>ToNumber\<close> answers \<open>None\<close> for a result that is not a finite number
  (\<open>NaN\<close>, an infinity), and arithmetic keeps such a result.
  \<open>String_toLowerCase\<close> is \<open>String.prototype.toLowerCase\<close>, the folding of all of
  Unicode, on the text that the Disposition Classifier folds.
\<close>

record host =
  JSON_parse :: "string \<Rightarrow> jsval option"
  ToString :: "jsval \<Rightarrow> exn + string"
  ToNumber :: "jsval \<Rightarrow> exn + rat option"
  String_toLowerCase :: "string \<Rightarrow> string"

definition to_string :: "host \<Rightarrow> jsval \<Rightarrow> exn + string" where
  "to_string h v = (case v of JStr s \<Rightarrow> Inr s | _ \<Rightarrow> ToString h v)"

definition to_number :: "host \<Rightarrow> jsval \<Rightarrow> exn + rat option" where
  "to_number h v = (case v of JNum n \<Rightarrow> Inr (Some n) | _ \<Rightarrow> ToNumber h v)"

section \<open>Payload Normalizer: the extraction functions of the webhook\<close>

text \<open>\<open>extractContactId\<close>: six candidate paths, the first truthy one wins.\<close>

definition extractContactId :: "jsval \<Rightarrow> exn + jsval" where
  "extractContactId payload =
    (if nullish payload then Inl TypeError
     else if truthy (js_get payload ''metadata'')
            \<and> truthy (js_get (js_get payload ''metadata'') ''contactId'')
       then Inr (js_get (js_get payload ''metadata'') ''contactId'')
     else if truthy (js_get payload ''message'')
            \<and> truthy (js_get (js_get payload ''message'') ''artifact'')
            \<and> truthy (js_get (js_get (js_get payload ''message'') ''artifact'') ''assistantOverrides'')
            \<and> truthy (js_get (js_get (js_get (js_get payload ''message'') ''artifact'')
                  ''assistantOverrides'') ''metadata'')
            \<and> truthy (js_get (js_get (js_get (js_get (js_get payload ''message'') ''artifact'')
                  ''assistantOverrides'') ''metadata'') ''contactId'')
       then Inr (js_get (js_get (js_get (js_get (js_get payload ''message'') ''artifact'')
                  ''assistantOverrides'') ''metadata'') ''contactId'')
     else if truthy (js_get payload ''assistantOverrides'')
            \<and> truthy (js_get (js_get payload ''assistantOverrides'') ''metadata'')
            \<and> truthy (js_get (js_get (js_get payload ''assistantOverrides'') ''metadata'') ''contactId'')
       then Inr (js_get (js_get (js_get payload ''assistantOverrides'') ''metadata'') ''contactId'')
     else if truthy (js_get payload ''customer'')
            \<and> truthy (js_get (js_get payload ''customer'') ''contactId'')
       then Inr (js_get (js_get payload ''customer'') ''contactId'')
     else if truthy (js_get payload ''message'')
            \<and> truthy (js_get (js_get payload ''message'') ''assistantOverrides'')
            \<and> truthy (js_get (js_get (js_get payload ''message'') ''assistantOverrides'') ''metadata'')
            \<and> truthy (js_get (js_get (js_get (js_get payload ''message'') ''assistantOverrides'')
                  ''metadata'') ''contactId'')
       then Inr (js_get (js_get (js_get (js_get payload ''message'') ''assistantOverrides'')
                  ''metadata'') ''contactId'')
     else if truthy (js_get payload ''message'')
            \<and> truthy (js_get (js_get payload ''message'') ''metadata'')
            \<and> truthy (js_get (js_get (js_get payload ''message'') ''metadata'') ''contactId'')
       then Inr (js_get (js_get (js_get payload ''message'') ''metadata'') ''contactId'')
     else Inr JNull)"

definition extractPhoneNumber :: "jsval \<Rightarrow> exn + jsval" where
  "extractPhoneNumber payload =
    (if nullish payload then Inl TypeError
     else if truthy (js_get payload ''customer'')
            \<and> truthy (js_get (js_get payload ''customer'') ''number'')
       then Inr (js_get (js_get payload ''customer'') ''number'')
     else if truthy (js_get payload ''message'')
            \<and> truthy (js_get (js_get payload ''message'') ''artifact'')
            \<and> truthy (js_get (js_get (js_get payload ''message'') ''artifact'') ''customer'')
            \<and> truthy (js_get (js_get (js_get (js_get payload ''message'') ''artifact'') ''customer'')
                  ''number'')
       then Inr (js_get (js_get (js_get (js_get payload ''message'') ''artifact'') ''customer'') ''number'')
     else if truthy (js_get payload ''message'')
            \<and> truthy (js_get (js_get payload ''message'') ''customer'')
            \<and> truthy (js_get (js_get (js_get payload ''message'') ''customer'') ''number'')
       then Inr (js_get (js_get (js_get payload ''message'') ''customer'') ''number'')
     else if truthy (js_get payload ''to'') then Inr (js_get payload ''to'')
     else if truthy (js_get payload ''message'') \<and> truthy (js_get (js_get payload ''message'') ''to'')
       then Inr (js_get (js_get payload ''message'') ''to'')
     else Inr JNull)"

definition extractCustomerName :: "jsval \<Rightarrow> exn + jsval" where
  "extractCustomerName payload =
    (if nullish payload then Inl TypeError
     else if truthy (js_get payload ''customer'')
            \<and> truthy (js_get (js_get payload ''customer'') ''name'')
       then Inr (js_get (js_get payload ''customer'') ''name'')
     else if truthy (js_get payload ''message'')
            \<and> truthy (js_get (js_get payload ''message'') ''artifact'')
            \<and> truthy (js_get (js_get (js_get payload ''message'') ''artifact'') ''customer'')
            \<and> truthy (js_get (js_get (js_get (js_get payload ''message'') ''artifact'') ''customer'')
                  ''name'')
       then Inr (js_get (js_get (js_get (js_get payload ''message'') ''artifact'') ''customer'') ''name'')
     else if truthy (js_get payload ''message'')
            \<and> truthy (js_get (js_get payload ''message'') ''customer'')
            \<and> truthy (js_get (js_get (js_get payload ''message'') ''customer'') ''name'')
       then Inr (js_get (js_get (js_get payload ''message'') ''customer'') ''name'')
     else Inr JNull)"

subsection \<open>Duration, status and cost\<close>

definition extractDuration :: "jsval \<Rightarrow> exn + jsval" where
  "extractDuration payload =
    (if nullish payload then Inl TypeError
     else if truthy (js_get payload ''durationSeconds'')
       then Inr (js_get payload ''durationSeconds'')
     else if truthy (js_get payload ''message'')
            \<and> truthy (js_get (js_get payload ''message'') ''durationSeconds'')
       then Inr (js_get (js_get payload ''message'') ''durationSeconds'')
     else if truthy (js_get payload ''duration'')
       then Inr (js_get payload ''duration'')
     else if truthy (js_get payload ''message'')
            \<and> truthy (js_get (js_get payload ''message'') ''duration'')
       then Inr (js_get (js_get payload ''message'') ''duration'')
     else Inr (JNum 0))"

text \<open>
  \<open>determineCallStatus\<close>: \<open>x === false\<close> holds for the boolean \<open>false\<close> only;
  \<open>typeof x === 'string'\<close> is \<open>is_string\<close>.
\<close>

definition status_includes_fail :: "jsval \<Rightarrow> bool" where
  "status_includes_fail v =
     (case v of JStr s \<Rightarrow> js_includes (toLowerCase s) ''fail'' | _ \<Rightarrow> False)"

definition determineCallStatus :: "jsval \<Rightarrow> exn + string" where
  "determineCallStatus payload =
    (if nullish payload then Inl TypeError
     else if js_get payload ''success'' = JBool False
            \<or> (truthy (js_get payload ''message'')
                \<and> js_get (js_get payload ''message'') ''success'' = JBool False)
       then Inr ''Failed''
     else if truthy (js_get payload ''status'') \<and> is_string (js_get payload ''status'')
            \<and> status_includes_fail (js_get payload ''status'')
       then Inr ''Failed''
     else Inr ''Completed'')"

text \<open>\<open>calculateCallCost\<close>: 0.99 per minute; the literal \<open>0.99\<close> is the double nearest to it.\<close>

definition minuteRate :: rat where
  "minuteRate = fl (99 / 100)"

definition calculateCallCost :: "rat \<Rightarrow> rat" where
  "calculateCallCost durationMinutes = fl (durationMinutes * minuteRate)"

section \<open>Disposition Classifier\<close>

text \<open>
  \<open>extractDisposition\<close> first reads the end reason, the summary and the transcript, each
  from its candidate paths (the first truthy one wins, \<open>null\<close> when none is).
\<close>

definition endReason_of :: "jsval \<Rightarrow> jsval" where
  "endReason_of payload =
    (if truthy (js_get payload ''endedReason'') then js_get payload ''endedReason''
     else if truthy (js_get payload ''message'')
            \<and> truthy (js_get (js_get payload ''message'') ''endedReason'')
       then js_get (js_get payload ''message'') ''endedReason''
     else if truthy (js_get payload ''end_reason'') then js_get payload ''end_reason''
     else if truthy (js_get payload ''message'')
            \<and> truthy (js_get (js_get payload ''message'') ''end_reason'')
       then js_get (js_get payload ''message'') ''end_reason''
     else JNull)"

definition summary_of :: "jsval \<Rightarrow> jsval" where
  "summary_of payload =
    (if truthy (js_get payload ''message'')
          \<and> truthy (js_get (js_get payload ''message'') ''analysis'')
          \<and> truthy (js_get (js_get (js_get payload ''message'') ''analysis'') ''summary'')
       then js_get (js_get (js_get payload ''message'') ''analysis'') ''summary''
     else if truthy (js_get payload ''analysis'')
            \<and> truthy (js_get (js_get payload ''analysis'') ''summary'')
       then js_get (js_get payload ''analysis'') ''summary''
     else if truthy (js_get payload ''summary'') then js_get payload ''summary''
     else JNull)"

definition transcript_of :: "jsval \<Rightarrow> jsval" where
  "transcript_of payload =
    (if truthy (js_get payload ''message'')
          \<and> truthy (js_get (js_get payload ''message'') ''transcript'')
       then js_get (js_get payload ''message'') ''transcript''
     else if truthy (js_get payload ''transcript'') then js_get payload ''transcript''
     else JNull)"

text \<open>\<open>(summary || "") + " " + (transcript || "")\<close>; the concatenation coerces its operands.\<close>

definition content_of :: "host \<Rightarrow> jsval \<Rightarrow> exn + string" where
  "content_of h payload =
    (case to_string h (js_or (summary_of payload) (JStr [])) of
       Inl e \<Rightarrow> Inl e
     | Inr s \<Rightarrow>
        (case to_string h (js_or (transcript_of payload) (JStr [])) of
           Inl e \<Rightarrow> Inl e
         | Inr t \<Rightarrow> Inr (s @ '' '' @ t)))"

text \<open>
  \<open>endReason?.toLowerCase()\<close>: \<open>undefined\<close> (here \<open>None\<close>) for \<open>null\<close>, the folded
  string for a string, and a \<open>TypeError\<close> for any other value, which has no such method.
  \<open>x?.includes(k)\<close> as a condition is false when \<open>x\<close> is \<open>undefined\<close>.
\<close>

definition opt_toLowerCase :: "host \<Rightarrow> jsval \<Rightarrow> exn + string option" where
  "opt_toLowerCase h v =
    (case v of
       JNull \<Rightarrow> Inr None
     | JUndefined \<Rightarrow> Inr None
     | JStr s \<Rightarrow> Inr (Some (String_toLowerCase h s))
     | _ \<Rightarrow> Inl TypeError)"

definition opt_includes :: "string option \<Rightarrow> string \<Rightarrow> bool" where
  "opt_includes x k = (case x of None \<Rightarrow> False | Some s \<Rightarrow> js_includes s k)"

text \<open>
  The chain of rules. The end reason is folded where the source first reaches
  \<open>endReason?.toLowerCase()\<close>, after the content keywords of the answering machine: from
  there on every rule starts with this expression, so it raises there or never.
  The Spanish keyword is written with the two UTF-8 bytes (C3 B1) of its n with tilde.
\<close>

definition classify :: "host \<Rightarrow> string \<Rightarrow> jsval \<Rightarrow> exn + string" where
  "classify h lowerContent endReason =
    (if js_includes lowerContent ''leave a message''
        \<or> js_includes lowerContent ''at the tone''
        \<or> js_includes lowerContent ''voicemail''
        \<or> js_includes lowerContent ''can't take your call''
        \<or> js_includes lowerContent ''after the beep''
     then Inr ''Answering Machine''
     else
      (case opt_toLowerCase h endReason of
         Inl e \<Rightarrow> Inl e
       | Inr er \<Rightarrow>
          if opt_includes er ''voicemail'' then Inr ''Answering Machine''
          else if opt_includes er ''customer did not answer''
                \<or> opt_includes er ''customer-did-not-answer''
                \<or> opt_includes er ''twilio failed connection''
                \<or> opt_includes er ''no-answer''
                \<or> opt_includes er ''no_answer''
            then Inr ''No Answer''
          else if opt_includes er ''assistant forwarded call''
                \<or> opt_includes er ''assistant-forwarded-call''
            then (if js_includes lowerContent ''education consultant''
                     \<or> js_includes lowerContent ''education advisor''
                     \<or> js_includes lowerContent ''forwarded to education''
                     \<or> js_includes lowerContent ''transferred to education''
                  then Inr ''Warm Transfer - Education''
                  else if js_includes lowerContent ''job consultant''
                     \<or> js_includes lowerContent ''job advisor''
                     \<or> js_includes lowerContent ''forwarded to job''
                     \<or> js_includes lowerContent ''transferred to job''
                  then Inr ''Warm Transfer - Job''
                  else Inr ''Warm Transfer'')
          else if js_includes lowerContent ''do not call''
                \<or> js_includes lowerContent ''don't call''
                \<or> js_includes lowerContent ''remove me''
                \<or> js_includes lowerContent ''stop calling''
                \<or> js_includes lowerContent ''take me off''
                \<or> js_includes lowerContent ''unsubscribe''
            then Inr ''Do Not Contact''
          else if js_includes lowerContent ''language barrier''
                \<or> js_includes lowerContent ''no english''
                \<or> js_includes lowerContent ''don't speak english''
                \<or> js_includes lowerContent (''habla espa'' @ [CHR 0xC3, CHR 0xB1] @ ''ol'')
                \<or> js_includes lowerContent ''communication issue''
                \<or> js_includes lowerContent ''language problem''
            then Inr ''Language Barrier''
          else if js_includes lowerContent ''not qualified''
                \<or> js_includes lowerContent ''qualification failed''
                \<or> js_includes lowerContent ''no high school diploma''
                \<or> js_includes lowerContent ''no ged''
                \<or> js_includes lowerContent ''under 18''
                \<or> js_includes lowerContent ''not a us citizen''
                \<or> js_includes lowerContent ''no green card''
                \<or> js_includes lowerContent ''currently enrolled in school''
                \<or> js_includes lowerContent ''currently enrolled in college''
                \<or> js_includes lowerContent ''still in school''
                \<or> js_includes lowerContent ''still in college''
            then Inr ''Not Qualified''
          else if js_includes lowerContent ''not interested''
                \<or> js_includes lowerContent ''no thanks''
                \<or> js_includes lowerContent ''not right now''
                \<or> js_includes lowerContent ''not looking''
                \<or> js_includes lowerContent ''not for me''
                \<or> js_includes lowerContent ''don't want''
            then Inr ''Not Interested''
          else if opt_includes er ''customer ended call''
                \<or> opt_includes er ''customer-ended-call''
            then Inr ''Hang Up''
          else if truthy endReason
            then (case to_string h endReason of
                    Inl e \<Rightarrow> Inl e
                  | Inr s \<Rightarrow> Inr (''Other: '' @ s))
          else Inr ''Unknown''))"

text \<open>
  The log line \<open>summary ? summary.substring(0, 100) + "..." : "None"\<close> stands before the
  rules: a truthy summary that is not a string has no \<open>substring\<close> method.
\<close>

definition extractDisposition :: "host \<Rightarrow> jsval \<Rightarrow> exn + string" where
  "extractDisposition h payload =
    (if nullish payload then Inl TypeError
     else if truthy (summary_of payload) \<and> \<not> is_string (summary_of payload)
       then Inl TypeError
     else
      (case content_of h payload of
         Inl e \<Rightarrow> Inl e
       | Inr content \<Rightarrow>
           classify h (String_toLowerCase h content) (endReason_of payload)))"

section \<open>Lead Repository\<close>

text \<open>
  A row of the \<open>leads\<close> table (the \<open>Lead\<close> interface of the dashboard). The phone number,
  the duration and the cost may be \<open>null\<close> in a row: the program guards each of them.
\<close>

record lead =
  lead_id :: string
  lead_name :: string
  phone_number :: "string option"
  phone_id :: "string option"
  status :: string
  disposition :: "string option"
  duration :: "rat option"
  cost :: "rat option"

text \<open>The object the webhook writes into a row; a number that is not finite is sent as \<open>null\<close>.\<close>

record update_fields =
  new_status :: string
  new_disposition :: string
  new_duration :: "rat option"
  new_cost :: "rat option"

text \<open>
  What the REST client of the webhook (\<open>createClient\<close>) gives back. A read is rejected
  when the request fails or its body is not JSON, and the rejection is not caught there;
  otherwise \<open>data\<close> is the parsed body: the array of rows, or the service's error object,
  which is not an array. The client never looks at the status of a response.
  The service itself is outside the program: its answers are a parameter. For an update
  the parameter is what \<open>fetch\<close> gives for the \<open>PATCH\<close> request: a rejection, or a
  response with its status and its body, \<open>None\<close> when the body is not JSON.
\<close>

datatype data = Rows "lead list" | NotRows

datatype reply = Rejected exn | Answer data

datatype http_reply = FetchRejected exn | HttpResponse nat "jsval option"

datatype update_reply = UpdateFailed exn | UpdateDone

record repo =
  select_eq :: "string \<Rightarrow> string \<Rightarrow> nat \<Rightarrow> reply"
  select_ilike :: "string \<Rightarrow> string \<Rightarrow> nat \<Rightarrow> reply"
  select_limit :: "nat \<Rightarrow> reply"
  fetch_patch :: "update_fields \<Rightarrow> string \<Rightarrow> string \<Rightarrow> http_reply"

text \<open>
  \<open>update(updates).eq(column, value).select()\<close> of \<open>createClient\<close>: a response with
  status 204 gives \<open>{data: {}, error: null}\<close>; any other response is read as JSON and
  gives \<open>{data, error: null}\<close>, whatever its status, or the error of the reading when its
  body is not JSON; a request that fails gives its error. \<open>UpdateDone\<close> is
  \<open>error: null\<close>.
\<close>

definition update_eq :: "repo \<Rightarrow> update_fields \<Rightarrow> string \<Rightarrow> string \<Rightarrow> update_reply" where
  "update_eq supabase updates column_name v =
     (case fetch_patch supabase updates column_name v of
        FetchRejected err \<Rightarrow> UpdateFailed err
      | HttpResponse st b \<Rightarrow>
          if st = 204 then UpdateDone
          else (case b of Some d \<Rightarrow> UpdateDone | None \<Rightarrow> UpdateFailed SyntaxError))"

text \<open>
  The service over a table \<open>T\<close>, for the requests the program makes (PostgREST): \<open>eq\<close>
  keeps the rows whose column equals the value, \<open>ilike\<close> with a pattern \<open>%x%\<close> keeps
  the rows whose column contains \<open>x\<close> whatever the case of the letters (\<open>x\<close> is taken as
  it is written), \<open>limit n\<close> keeps the first \<open>n\<close> rows, in the order of the table. An
  update is answered with status 200 and a JSON body (the rows, which the handler only
  logs), and overwrites the four fields of the rows whose \<open>id\<close> is \<open>cid\<close>.
\<close>

definition column :: "string \<Rightarrow> lead \<Rightarrow> string option" where
  "column c l =
     (if c = ''id'' then Some (lead_id l)
      else if c = ''name'' then Some (lead_name l)
      else if c = ''phone_number'' then phone_number l
      else None)"

definition ilike :: "string \<Rightarrow> string \<Rightarrow> bool" where
  "ilike pat v =
     (if 2 \<le> length pat \<and> hd pat = CHR ''%'' \<and> last pat = CHR ''%''
      then js_includes (toLowerCase v) (toLowerCase (butlast (tl pat)))
      else toLowerCase v = toLowerCase pat)"

definition table_repo :: "lead list \<Rightarrow> repo" where
  "table_repo T =
     \<lparr>select_eq = (\<lambda>c v n. Answer (Rows (take n (filter (\<lambda>l. column c l = Some v) T)))),
      select_ilike = (\<lambda>c pat n. Answer (Rows (take n
          (filter (\<lambda>l. case column c l of None \<Rightarrow> False | Some x \<Rightarrow> ilike pat x) T)))),
      select_limit = (\<lambda>n. Answer (Rows (take n T))),
      fetch_patch = (\<lambda>u c v. HttpResponse 200 (Some (JArr [])))\<rparr>"

definition apply_update :: "update_fields \<Rightarrow> string \<Rightarrow> lead list \<Rightarrow> lead list" where
  "apply_update u cid T =
     map (\<lambda>l. if lead_id l = cid
               then l\<lparr>status := new_status u, disposition := Some (new_disposition u),
                      duration := new_duration u, cost := new_cost u\<rparr>
               else l) T"

text \<open>What the update does to one row.\<close>

definition updated_row :: "update_fields \<Rightarrow> string \<Rightarrow> lead \<Rightarrow> lead" where
  "updated_row u cid l =
     (if lead_id l = cid
      then l\<lparr>status := new_status u, disposition := Some (new_disposition u),
             duration := new_duration u, cost := new_cost u\<rparr>
      else l)"

section \<open>Lead Matcher\<close>

text \<open>\<open>!error && data && data.length > 0\<close>, then \<open>data[0]\<close>.\<close>

definition first_row :: "data \<Rightarrow> lead option" where
  "first_row d = (case d of Rows (l # ls) \<Rightarrow> Some l | _ \<Rightarrow> None)"

text \<open>\<open>!lead.phone_number\<close>: \<open>null\<close> and the empty string are falsy.\<close>

definition no_phone :: "lead \<Rightarrow> bool" where
  "no_phone l = (case phone_number l of None \<Rightarrow> True | Some p \<Rightarrow> p = [])"

definition phone_of :: "lead \<Rightarrow> string" where
  "phone_of l = (case phone_number l of None \<Rightarrow> [] | Some p \<Rightarrow> p)"

text \<open>The loop over the leads of the third attempt.\<close>

fun scan_cleaned :: "string \<Rightarrow> string \<Rightarrow> lead list \<Rightarrow> lead option" where
  "scan_cleaned cleanedPhoneNumber lastTenDigits [] = None"
| "scan_cleaned cleanedPhoneNumber lastTenDigits (lead # rest) =
    (if no_phone lead then scan_cleaned cleanedPhoneNumber lastTenDigits rest
     else
      (let leadCleanNumber = replace_nondigits (phone_of lead);
           leadLastDigits = slice_last 10 leadCleanNumber
       in if leadCleanNumber = cleanedPhoneNumber
             \<or> leadLastDigits = lastTenDigits
             \<or> endsWith leadCleanNumber lastTenDigits
             \<or> endsWith cleanedPhoneNumber leadLastDigits
          then Some lead
          else scan_cleaned cleanedPhoneNumber lastTenDigits rest))"

text \<open>
  \<open>findLeadByPhoneNumber\<close>. The phone number is any truthy value of the payload: the
  first query coerces it to a string, and \<open>phoneNumber.replace\<close> raises when it is not one.
  Iterating over an answer that is not an array raises too.
\<close>

definition findLeadByPhoneNumber :: "host \<Rightarrow> repo \<Rightarrow> jsval \<Rightarrow> exn + lead option" where
  "findLeadByPhoneNumber h supabase phoneNumber =
    (case to_string h phoneNumber of
       Inl e \<Rightarrow> Inl e
     | Inr p \<Rightarrow>
      (case select_eq supabase ''phone_number'' p 1 of
         Rejected e \<Rightarrow> Inl e
       | Answer d \<Rightarrow>
        (case first_row d of
           Some l \<Rightarrow> Inr (Some l)
         | None \<Rightarrow>
          (case phoneNumber of
             JStr s \<Rightarrow>
              (let cleanedPhoneNumber = replace_nondigits s;
                   lastTenDigits = slice_last 10 cleanedPhoneNumber
               in case select_ilike supabase ''phone_number''
                         (''%'' @ lastTenDigits @ ''%'') 1 of
                    Rejected e \<Rightarrow> Inl e
                  | Answer d2 \<Rightarrow>
                    (case first_row d2 of
                       Some l \<Rightarrow> Inr (Some l)
                     | None \<Rightarrow>
                      (case select_limit supabase 25 of
                         Rejected e \<Rightarrow> Inl e
                       | Answer NotRows \<Rightarrow> Inl TypeError
                       | Answer (Rows allLeads) \<Rightarrow>
                           Inr (scan_cleaned cleanedPhoneNumber lastTenDigits allLeads))))
           | _ \<Rightarrow> Inl TypeError))))"

fun scan_last_four :: "string \<Rightarrow> lead list \<Rightarrow> lead option" where
  "scan_last_four lastFourDigits [] = None"
| "scan_last_four lastFourDigits (lead # rest) =
    (if no_phone lead then scan_last_four lastFourDigits rest
     else if endsWith (replace_nondigits (phone_of lead)) lastFourDigits then Some lead
     else scan_last_four lastFourDigits rest)"

text \<open>
  \<open>findLeadByNameAndPhone\<close>: \<open>error || !data || data.length === 0\<close> gives \<open>null\<close>; an
  answer that is not an array passes this test and raises in the loop.
\<close>

definition findLeadByNameAndPhone ::
    "host \<Rightarrow> repo \<Rightarrow> jsval \<Rightarrow> jsval \<Rightarrow> exn + lead option" where
  "findLeadByNameAndPhone h supabase name phoneNumber =
    (case phoneNumber of
       JStr s \<Rightarrow>
        (let cleanedPhoneNumber = replace_nondigits s;
             lastFourDigits = slice_last 4 cleanedPhoneNumber
         in case to_string h name of
              Inl e \<Rightarrow> Inl e
            | Inr n \<Rightarrow>
              (case select_ilike supabase ''name'' (''%'' @ n @ ''%'') 10 of
                 Rejected e \<Rightarrow> Inl e
               | Answer NotRows \<Rightarrow> Inl TypeError
               | Answer (Rows leads) \<Rightarrow> Inr (scan_last_four lastFourDigits leads)))
     | _ \<Rightarrow> Inl TypeError)"

text \<open>
  The lookup of the handler: without a contact id and with a phone number, by phone, then
  by name and phone when the payload names the customer.
\<close>

definition resolve_contact ::
    "host \<Rightarrow> repo \<Rightarrow> jsval \<Rightarrow> jsval \<Rightarrow> jsval \<Rightarrow> exn + jsval" where
  "resolve_contact h supabase payload contactId phoneNumber =
    (if \<not> truthy contactId \<and> truthy phoneNumber then
      (case findLeadByPhoneNumber h supabase phoneNumber of
         Inl e \<Rightarrow> Inl e
       | Inr (Some leadResult) \<Rightarrow> Inr (JStr (lead_id leadResult))
       | Inr None \<Rightarrow>
          (case extractCustomerName payload of
             Inl e \<Rightarrow> Inl e
           | Inr customerName \<Rightarrow>
              if truthy customerName \<and> truthy phoneNumber then
                (case findLeadByNameAndPhone h supabase customerName phoneNumber of
                   Inl e \<Rightarrow> Inl e
                 | Inr (Some leadByNameResult) \<Rightarrow> Inr (JStr (lead_id leadByNameResult))
                 | Inr None \<Rightarrow> Inr contactId)
              else Inr contactId))
     else Inr contactId)"

section \<open>Webhook Ingestor\<close>

text \<open>
  A request is its method and what reading its body gives. A response is its status and
  its JSON body (no body for the preflight answer); the headers play no part here.
  \<open>new Response\<close> without a status has status 200. The outcome of a request is the
  response together with the update the handler sent to the repository, if it sent one.
\<close>

record request =
  req_method :: string
  req_text :: "exn + string"

record body =
  success :: bool
  message :: string
  error :: "exn option"

record response =
  http_status :: nat
  body :: "body option"

record outcome =
  response :: response
  patch :: "(string \<times> update_fields) option"

definition json_response :: "bool \<Rightarrow> string \<Rightarrow> exn option \<Rightarrow> response" where
  "json_response ok msg err =
     \<lparr>http_status = 200, body = Some \<lparr>success = ok, message = msg, error = err\<rparr>\<rparr>"

text \<open>
  The body of the handler's \<open>try\<close>; \<open>Inl\<close> is an exception that reaches its \<open>catch\<close>.
  The locals \<open>status\<close>, \<open>disposition\<close>, \<open>duration\<close> and \<open>cost\<close> carry a prime
  here, the plain names being the fields of a lead.
\<close>

definition process :: "host \<Rightarrow> repo \<Rightarrow> request \<Rightarrow> exn + outcome" where
  "process h supabaseAdmin req =
    (case req_text req of
       Inl e \<Rightarrow> Inl e
     | Inr rawBody \<Rightarrow>
      (case JSON_parse h rawBody of
         None \<Rightarrow>
           Inr \<lparr>response = json_response False ''Invalid JSON payload'' None, patch = None\<rparr>
       | Some payload \<Rightarrow>
        if nullish payload then Inl TypeError
        else
        (case extractContactId payload of Inl e \<Rightarrow> Inl e | Inr contactId0 \<Rightarrow>
        (case extractPhoneNumber payload of Inl e \<Rightarrow> Inl e | Inr phoneNumber \<Rightarrow>
        (case extractDisposition h payload of Inl e \<Rightarrow> Inl e | Inr disposition' \<Rightarrow>
        (case extractDuration payload of Inl e \<Rightarrow> Inl e | Inr duration' \<Rightarrow>
        (case to_number h duration' of Inl e \<Rightarrow> Inl e | Inr seconds \<Rightarrow>
        (let durationMinutes = map_option (\<lambda>d. fl (d / 60)) seconds;
             cost' = map_option calculateCallCost durationMinutes
         in
        (case determineCallStatus payload of Inl e \<Rightarrow> Inl e | Inr status' \<Rightarrow>
        (case resolve_contact h supabaseAdmin payload contactId0 phoneNumber of
           Inl e \<Rightarrow> Inl e
         | Inr contactId \<Rightarrow>
            if \<not> truthy contactId \<and> \<not> truthy phoneNumber then
              Inr \<lparr>response = json_response False
                     ''Failed to find contact information in webhook'' None,
                   patch = None\<rparr>
            else if truthy contactId then
              (case to_string h contactId of
                 Inl e \<Rightarrow> Inl e
               | Inr cid \<Rightarrow>
                  (let fields = \<lparr>new_status = status', new_disposition = disposition',
                                 new_duration = durationMinutes, new_cost = cost'\<rparr>
                   in case update_eq supabaseAdmin fields ''id'' cid of
                        UpdateFailed e \<Rightarrow>
                          Inr \<lparr>response = json_response False ''Failed to update lead'' (Some e),
                               patch = Some (cid, fields)\<rparr>
                      | UpdateDone \<Rightarrow>
                          Inr \<lparr>response = json_response True
                                 ''Webhook processed successfully'' None,
                               patch = Some (cid, fields)\<rparr>))
            else
              Inr \<lparr>response = json_response True ''Webhook processed successfully'' None,
                   patch = None\<rparr>))))))))))"

definition serve :: "host \<Rightarrow> repo \<Rightarrow> request \<Rightarrow> outcome" where
  "serve h supabaseAdmin req =
    (if req_method req = ''OPTIONS'' then
       \<lparr>response = \<lparr>http_status = 200, body = None\<rparr>, patch = None\<rparr>
     else
      (case process h supabaseAdmin req of
         Inr out \<Rightarrow> out
       | Inl e \<Rightarrow>
           \<lparr>response = json_response False ''Failed to process webhook'' (Some e),
            patch = None\<rparr>))"

text \<open>
  A delivery: the handler serves the request over the table of the stored leads, and the
  service applies the update the handler sent, if it sent one. The result is the table
  after the delivery.
\<close>

definition deliver :: "host \<Rightarrow> lead list \<Rightarrow> request \<Rightarrow> lead list" where
  "deliver h T req =
     (case patch (serve h (table_repo T) req) of
        None \<Rightarrow> T
      | Some (cid, u) \<Rightarrow> apply_update u cid T)"

section \<open>Dashboard: campaign statistics\<close>

text \<open>
  \<open>updateStats\<close> of the \<open>useLeads\<close> hook recomputes the statistics from the lead rows it
  is given. \<open>lead.duration || 0\<close> reads a \<open>null\<close> as 0.
\<close>

record LeadStats =
  completed :: nat
  inProgress :: nat
  remaining :: nat
  failed :: nat
  totalDuration :: rat
  totalCost :: rat

definition or_zero :: "rat option \<Rightarrow> rat" where
  "or_zero x = (case x of None \<Rightarrow> 0 | Some d \<Rightarrow> d)"

definition updateStats :: "lead list \<Rightarrow> LeadStats" where
  "updateStats leadsData =
     \<lparr>completed = length (filter (\<lambda>lead. status lead = ''Completed'') leadsData),
      inProgress = length (filter (\<lambda>lead. status lead = ''In Progress'') leadsData),
      remaining = length (filter (\<lambda>lead. status lead = ''Pending'') leadsData),
      failed = length (filter (\<lambda>lead. status lead = ''Failed'') leadsData),
      totalDuration = foldl (\<lambda>sum lead. fl (sum + or_zero (duration lead))) 0 leadsData,
      totalCost = foldl (\<lambda>sum lead. fl (sum + or_zero (cost lead))) 0 leadsData\<rparr>"

section \<open>Call Dispatcher and Pacing Scheduler: the \<open>useCampaignExecution\<close> hook\<close>

text \<open>
  The hook's surroundings. \<open>supabase.functions.invoke('trigger-call', ...)\<close> raises
  (also when its result has no \<open>data\<close>), or reports an error, or gives
  \<open>{success, message}\<close>; the update of the lead row reports an error or not. Both are
  parameters. A toast is recorded by its kind.
\<close>

datatype invoke_result =
    InvokeThrows
  | InvokeError string
  | InvokeData bool "string option"

record client =
  functions_invoke :: "string \<Rightarrow> invoke_result"
  update_error :: "string \<Rightarrow> bool"

datatype toast =
    CannotCallLead string string
  | FailedToInitiateCall "string option"
  | CallInitiated
  | NoPendingLeads
  | StartedProcessing nat
  | ExecutionCompleted
  | StoppedExecution
  | CallAlreadyInProgress

text \<open>
  The state the hook acts on: the rows of the repository, the React state of the hook
  (\<open>isExecuting\<close>, \<open>isCallInProgress\<close>, \<open>intervalId\<close>, \<open>selectedPacing\<close>), the timers that
  \<open>setInterval\<close> has created and \<open>clearInterval\<close> has not cancelled (each with its interval
  in milliseconds, \<open>None\<close> when the interval is not a finite number), the toasts shown and
  the lead ids sent to the provider.
\<close>

record world =
  stored :: "lead list"
  isExecuting :: bool
  isCallInProgress :: bool
  intervalId :: "nat option"
  selectedPacing :: string
  timers :: "(nat \<times> rat option) list"
  next_timer :: nat
  toasts :: "toast list"
  invoked :: "string list"

definition toast_add :: "toast \<Rightarrow> world \<Rightarrow> world" where
  "toast_add t w = w\<lparr>toasts := toasts w @ [t]\<rparr>"

definition setInterval :: "rat option \<Rightarrow> world \<Rightarrow> nat \<times> world" where
  "setInterval ms w =
     (next_timer w, w\<lparr>timers := timers w @ [(next_timer w, ms)], next_timer := Suc (next_timer w)\<rparr>)"

definition clearInterval :: "nat \<Rightarrow> world \<Rightarrow> world" where
  "clearInterval i w = w\<lparr>timers := filter (\<lambda>t. fst t \<noteq> i) (timers w)\<rparr>"

text \<open>The update \<open>{status: 'In Progress', disposition: 'Call initiated'}\<close> of the rows with this id.\<close>

definition mark_in_progress :: "string \<Rightarrow> lead list \<Rightarrow> lead list" where
  "mark_in_progress leadId rows =
     map (\<lambda>l. if lead_id l = leadId
               then l\<lparr>status := ''In Progress'', disposition := Some ''Call initiated''\<rparr>
               else l) rows"

text \<open>
  \<open>triggerCall\<close>. \<open>leads\<close> is the lead list of the render whose closure runs. The
  \<open>finally\<close> clears the in-flight flag on every path.
\<close>

definition triggerCall :: "client \<Rightarrow> lead list \<Rightarrow> string \<Rightarrow> world \<Rightarrow> world" where
  "triggerCall c leads leadId w =
    (let w1 = w\<lparr>isCallInProgress := True\<rparr>;
         leadToCall = find (\<lambda>lead. lead_id lead = leadId) leads;
         w2 =
          (case leadToCall of
             Some l \<Rightarrow>
               if status l \<noteq> ''Pending''
               then Some (toast_add (CannotCallLead (lead_name l) (status l)) w1)
               else None
           | None \<Rightarrow> None)
     in case w2 of
          Some rejected \<Rightarrow> rejected\<lparr>isCallInProgress := False\<rparr>
        | None \<Rightarrow>
           (let w3 = w1\<lparr>invoked := invoked w1 @ [leadId]\<rparr>;
                w4 =
                 (case functions_invoke c leadId of
                    InvokeThrows \<Rightarrow> toast_add (FailedToInitiateCall None) w3
                  | InvokeError m \<Rightarrow> toast_add (FailedToInitiateCall (Some m)) w3
                  | InvokeData ok msg \<Rightarrow>
                      if ok then
                        (let w5 = toast_add CallInitiated w3
                         in if update_error c leadId then w5
                            else w5\<lparr>stored := mark_in_progress leadId (stored w5)\<rparr>)
                      else toast_add (FailedToInitiateCall msg) w3)
            in w4\<lparr>isCallInProgress := False\<rparr>))"

text \<open>
  \<open>triggerCall\<close> is asynchronous: its caller is suspended at \<open>await triggerCall(...)\<close>
  while the provider is asked. Its first part runs when it is called, up to the request
  to the provider: it answers whether a request was sent. Its second part runs when the
  provider has answered, and is taken as one step (the update of the row included).
  \<open>triggerCall\<close> above is the first part followed at once by the second.
\<close>

definition triggerCall_begin :: "lead list \<Rightarrow> string \<Rightarrow> world \<Rightarrow> bool \<times> world" where
  "triggerCall_begin leads leadId w =
    (let w1 = w\<lparr>isCallInProgress := True\<rparr>;
         leadToCall = find (\<lambda>lead. lead_id lead = leadId) leads;
         w2 =
          (case leadToCall of
             Some l \<Rightarrow>
               if status l \<noteq> ''Pending''
               then Some (toast_add (CannotCallLead (lead_name l) (status l)) w1)
               else None
           | None \<Rightarrow> None)
     in case w2 of
          Some rejected \<Rightarrow> (False, rejected\<lparr>isCallInProgress := False\<rparr>)
        | None \<Rightarrow> (True, w1\<lparr>invoked := invoked w1 @ [leadId]\<rparr>))"

definition triggerCall_end :: "client \<Rightarrow> string \<Rightarrow> world \<Rightarrow> world" where
  "triggerCall_end c leadId w3 =
    (let w4 =
          (case functions_invoke c leadId of
             InvokeThrows \<Rightarrow> toast_add (FailedToInitiateCall None) w3
           | InvokeError m \<Rightarrow> toast_add (FailedToInitiateCall (Some m)) w3
           | InvokeData ok msg \<Rightarrow>
               if ok then
                 (let w5 = toast_add CallInitiated w3
                  in if update_error c leadId then w5
                     else w5\<lparr>stored := mark_in_progress leadId (stored w5)\<rparr>)
               else toast_add (FailedToInitiateCall msg) w3)
     in w4\<lparr>isCallInProgress := False\<rparr>)"

text \<open>
  \<open>parseInt(s, 10)\<close>: leading white space, a sign, then the longest run of decimal
  digits; \<open>None\<close> is \<open>NaN\<close>.
\<close>

definition is_space :: "char \<Rightarrow> bool" where
  "is_space c = (c \<in> set [CHR '' '', CHR 0x09, CHR 0x0A, CHR 0x0B, CHR 0x0C, CHR 0x0D])"

definition digit_value :: "char \<Rightarrow> nat" where
  "digit_value c =
     (case map_of (zip ''0123456789'' [0, 1, 2, 3, 4, 5, 6, 7, 8, 9]) c of
        Some n \<Rightarrow> n | None \<Rightarrow> 0)"

definition parseInt :: "string \<Rightarrow> int option" where
  "parseInt s =
     (let t = dropWhile is_space s;
          negative = (t \<noteq> [] \<and> hd t = CHR ''-'');
          u = (if t \<noteq> [] \<and> (hd t = CHR ''-'' \<or> hd t = CHR ''+'') then tl t else t);
          ds = takeWhile is_digit u
      in if ds = [] then None
         else Some ((if negative then - 1 else 1)
                    * int (foldl (\<lambda>a d. 10 * a + digit_value d) 0 ds)))"

text \<open>
  \<open>(1 / parseInt(selectedPacing, 10)) * 1000\<close>, in doubles (\<open>parseInt\<close> gives the double
  nearest to the integer it reads); a division by 0 or \<open>NaN\<close> is not finite.
\<close>

definition pacingInterval :: "string \<Rightarrow> rat option" where
  "pacingInterval pacing =
     (case parseInt pacing of
        None \<Rightarrow> None
      | Some n \<Rightarrow> if n = 0 then None else Some (fl (fl (1 / fl (of_int n)) * 1000)))"

text \<open>
  The rates the dashboard's pacing selector offers (the values of its \<open>SelectItem\<close>s);
  \<open>selectedPacing\<close> is one of them.
\<close>

definition pacing_options :: "string list" where
  "pacing_options = [''1'', ''2'', ''3'', ''5'']"

text \<open>
  A run is the closure that \<open>startExecution\<close> hands to \<open>setInterval\<close>: the snapshot
  \<open>pendingLeads\<close>, the cursor \<open>currentIndex\<close>, the timer's id, and what the closure
  captured of the render that started it, the lead list and the value of
  \<open>isCallInProgress\<close>. Later changes of the React state do not reach the closure.
\<close>

record run =
  pendingLeads :: "lead list"
  currentIndex :: nat
  run_timer :: nat
  run_leads :: "lead list"
  run_isCallInProgress :: bool

definition eligible :: "lead \<Rightarrow> bool" where
  "eligible lead = (status lead = ''Pending'' \<and> phone_id lead \<noteq> None)"

definition startExecution :: "lead list \<Rightarrow> world \<Rightarrow> run option \<times> world" where
  "startExecution leads w =
    (let pending = filter eligible leads
     in if length pending = 0 then (None, toast_add NoPendingLeads w)
        else
         (let w1 = toast_add (StartedProcessing (length pending)) (w\<lparr>isExecuting := True\<rparr>);
              (i, w2) = setInterval (pacingInterval (selectedPacing w)) w1
          in (Some \<lparr>pendingLeads = pending, currentIndex = 0, run_timer = i,
                     run_leads = leads, run_isCallInProgress = isCallInProgress w\<rparr>,
              w2\<lparr>intervalId := Some i\<rparr>)))"

text \<open>
  The callback of the interval is asynchronous, and the timer does not wait for it. When
  the timer fires the callback runs up to its \<open>await triggerCall(...)\<close>, or to its end
  when it ends the run, when it finds the in-flight flag set, or when the dispatch is
  rejected before any request (the awaited call has then returned, and the callback
  goes on before any other timer fires). A callback suspended at its \<open>await\<close> goes
  on when its call returns: only then does it move the cursor. In between the timer may
  fire again. A session is the run, the state it acts on, and the lead ids of the
  callbacks that are suspended.
\<close>

record session =
  sess_run :: run
  sess_world :: world
  awaiting :: "string list"

datatype event = TimerFires | CallReturns string

definition timer_fires :: "session \<Rightarrow> session" where
  "timer_fires s =
    (let r = sess_run s; w = sess_world s
     in if run_timer r \<notin> fst ` set (timers w) then s
        else if currentIndex r \<ge> length (pendingLeads r) then
          s\<lparr>sess_world := toast_add ExecutionCompleted
                ((clearInterval (run_timer r) w)\<lparr>intervalId := None, isExecuting := False\<rparr>)\<rparr>
        else
          (let currentLead = pendingLeads r ! currentIndex r
           in if \<not> run_isCallInProgress r then
                (case triggerCall_begin (run_leads r) (lead_id currentLead) w of
                   (True, w1) \<Rightarrow>
                     s\<lparr>sess_world := w1, awaiting := awaiting s @ [lead_id currentLead]\<rparr>
                 | (False, w1) \<Rightarrow>
                     s\<lparr>sess_run := r\<lparr>currentIndex := currentIndex r + 1\<rparr>,
                       sess_world := w1\<rparr>)
              else s\<lparr>sess_run := r\<lparr>currentIndex := currentIndex r + 1\<rparr>\<rparr>))"

definition call_returns :: "client \<Rightarrow> string \<Rightarrow> session \<Rightarrow> session" where
  "call_returns c leadId s =
    (if leadId \<in> set (awaiting s) then
       s\<lparr>sess_run := (sess_run s)\<lparr>currentIndex := currentIndex (sess_run s) + 1\<rparr>,
         sess_world := triggerCall_end c leadId (sess_world s),
         awaiting := remove1 leadId (awaiting s)\<rparr>
     else s)"

definition step :: "client \<Rightarrow> session \<Rightarrow> event \<Rightarrow> session" where
  "step c s ev = (case ev of TimerFires \<Rightarrow> timer_fires s | CallReturns i \<Rightarrow> call_returns c i s)"

definition run_events :: "client \<Rightarrow> event list \<Rightarrow> session \<Rightarrow> session" where
  "run_events c evs s = foldl (step c) s evs"

text \<open>
  A tick whose dispatch returns before the timer fires again: the timer fires, and the
  calls that are awaited return.
\<close>

definition settled_tick :: "client \<Rightarrow> session \<Rightarrow> session" where
  "settled_tick c s = foldl (\<lambda>s' i. call_returns c i s') (timer_fires s) (awaiting (timer_fires s))"

definition stopExecution :: "world \<Rightarrow> world" where
  "stopExecution w =
    (let w1 = (case intervalId w of
                 Some i \<Rightarrow> (clearInterval i w)\<lparr>intervalId := None\<rparr>
               | None \<Rightarrow> w)
     in toast_add StoppedExecution (w1\<lparr>isExecuting := False\<rparr>))"

definition toggleExecution :: "lead list \<Rightarrow> world \<Rightarrow> run option \<times> world" where
  "toggleExecution leads w =
    (if \<not> isExecuting w then startExecution leads w else (None, stopExecution w))"

definition triggerSingleCall :: "client \<Rightarrow> lead list \<Rightarrow> string \<Rightarrow> world \<Rightarrow> world" where
  "triggerSingleCall c leads leadId w =
    (if isCallInProgress w then toast_add CallAlreadyInProgress w
     else triggerCall c leads leadId w)"

text \<open>
  \<open>settled_ticks c k\<close> is \<open>k\<close> such ticks in a row.
\<close>

primrec settled_ticks :: "client \<Rightarrow> nat \<Rightarrow> session \<Rightarrow> session" where
  "settled_ticks c 0 s = s"
| "settled_ticks c (Suc k) s = settled_tick c (settled_ticks c k s)"

section \<open>The specification's notions\<close>

subsection \<open>Duration paths and failure markers\<close>

text \<open>
  The four candidate paths of the duration, in the order the function tries them; a path
  under \<open>message\<close> is absent when \<open>message\<close> is falsy.
\<close>

definition under_message :: "jsval \<Rightarrow> string \<Rightarrow> jsval" where
  "under_message payload k =
     (if truthy (js_get payload ''message'') then js_get (js_get payload ''message'') k
      else JUndefined)"

definition duration_paths :: "jsval \<Rightarrow> jsval list" where
  "duration_paths payload =
     [js_get payload ''durationSeconds'', under_message payload ''durationSeconds'',
      js_get payload ''duration'', under_message payload ''duration'']"

text \<open>
  The failure markers of a payload, in the words of the specification: \<open>success: false\<close>
  at top level or one level under \<open>message\<close>, or a top-level \<open>status\<close> that is a string
  and contains "fail" whatever the case of its letters.
\<close>

definition failure_marker :: "jsval \<Rightarrow> bool" where
  "failure_marker payload =
     (js_get payload ''success'' = JBool False
      \<or> under_message payload ''success'' = JBool False
      \<or> (case js_get payload ''status'' of
            JStr s \<Rightarrow> sublist ''fail'' (toLowerCase s) | _ \<Rightarrow> False))"

subsection \<open>The ordered rule table of the dispositions\<close>

text \<open>
  The specification's ordered rule table: each rule is a condition on the folded content
  and the folded end reason together with its label, the first rule that holds wins, and
  \<open>Unknown\<close> is the label when none does.
\<close>

fun first_match :: "(bool \<times> string) list \<Rightarrow> string \<Rightarrow> string" where
  "first_match [] d = d"
| "first_match ((c, l) # rs) d = (if c then l else first_match rs d)"

definition contains_any :: "string \<Rightarrow> string list \<Rightarrow> bool" where
  "contains_any s ks = (\<exists>k \<in> set ks. sublist k s)"

definition reason_contains_any :: "string option \<Rightarrow> string list \<Rightarrow> bool" where
  "reason_contains_any r ks = (case r of None \<Rightarrow> False | Some s \<Rightarrow> contains_any s ks)"

definition answering_machine_rule :: "string \<Rightarrow> string option \<Rightarrow> bool" where
  "answering_machine_rule c r =
     (contains_any c [''leave a message'', ''at the tone'', ''voicemail'',
        ''can't take your call'', ''after the beep'']
      \<or> reason_contains_any r [''voicemail''])"

definition no_answer_rule :: "string option \<Rightarrow> bool" where
  "no_answer_rule r =
     reason_contains_any r [''customer did not answer'', ''customer-did-not-answer'',
        ''twilio failed connection'', ''no-answer'', ''no_answer'']"

definition warm_transfer_rule :: "string option \<Rightarrow> bool" where
  "warm_transfer_rule r =
     reason_contains_any r [''assistant forwarded call'', ''assistant-forwarded-call'']"

definition education_keywords :: "string \<Rightarrow> bool" where
  "education_keywords c =
     contains_any c [''education consultant'', ''education advisor'',
        ''forwarded to education'', ''transferred to education'']"

definition job_keywords :: "string \<Rightarrow> bool" where
  "job_keywords c =
     contains_any c [''job consultant'', ''job advisor'', ''forwarded to job'',
        ''transferred to job'']"

definition do_not_contact_rule :: "string \<Rightarrow> bool" where
  "do_not_contact_rule c =
     contains_any c [''do not call'', ''don't call'', ''remove me'', ''stop calling'',
        ''take me off'', ''unsubscribe'']"

definition language_barrier_rule :: "string \<Rightarrow> bool" where
  "language_barrier_rule c =
     contains_any c [''language barrier'', ''no english'', ''don't speak english'',
        ''habla espa'' @ [CHR 0xC3, CHR 0xB1] @ ''ol'', ''communication issue'',
        ''language problem'']"

definition not_qualified_rule :: "string \<Rightarrow> bool" where
  "not_qualified_rule c =
     contains_any c [''not qualified'', ''qualification failed'', ''no high school diploma'',
        ''no ged'', ''under 18'', ''not a us citizen'', ''no green card'',
        ''currently enrolled in school'', ''currently enrolled in college'',
        ''still in school'', ''still in college'']"

definition not_interested_rule :: "string \<Rightarrow> bool" where
  "not_interested_rule c =
     contains_any c [''not interested'', ''no thanks'', ''not right now'', ''not looking'',
        ''not for me'', ''don't want'']"

definition hang_up_rule :: "string option \<Rightarrow> bool" where
  "hang_up_rule r = reason_contains_any r [''customer ended call'', ''customer-ended-call'']"

definition disposition_rules ::
    "string \<Rightarrow> string option \<Rightarrow> string option \<Rightarrow> (bool \<times> string) list" where
  "disposition_rules c r reason =
     [(answering_machine_rule c r, ''Answering Machine''),
      (no_answer_rule r, ''No Answer''),
      (warm_transfer_rule r \<and> education_keywords c, ''Warm Transfer - Education''),
      (warm_transfer_rule r \<and> job_keywords c, ''Warm Transfer - Job''),
      (warm_transfer_rule r, ''Warm Transfer''),
      (do_not_contact_rule c, ''Do Not Contact''),
      (language_barrier_rule c, ''Language Barrier''),
      (not_qualified_rule c, ''Not Qualified''),
      (not_interested_rule c, ''Not Interested''),
      (hang_up_rule r, ''Hang Up''),
      (reason \<noteq> None, ''Other: '' @ (case reason of None \<Rightarrow> [] | Some s \<Rightarrow> s))]"

text \<open>
  A value of the payload as text: present when it is a non-empty string, absent when it
  is falsy. A summary, an end reason or a name is well typed when it is text or absent.
\<close>

definition text_of :: "jsval \<Rightarrow> string option" where
  "text_of v = (case v of JStr s \<Rightarrow> (if s = [] then None else Some s) | _ \<Rightarrow> None)"

definition text_or_absent :: "jsval \<Rightarrow> bool" where
  "text_or_absent v = (\<not> truthy v \<or> is_string v)"

subsection \<open>The steps of the Lead Matcher\<close>

text \<open>
  The four steps in the words of the specification, over the table \<open>T\<close> of the stored
  leads: the exact phone number; the last ten digits of the incoming number inside the
  stored number; among the first 25 leads, the stripped numbers compared by their ends in
  either direction; and, when the customer is named, among the first 10 leads whose name
  contains that name (whatever the case), a stripped number that ends with the last four
  digits of the incoming one. The first step that finds a lead gives the answer.
\<close>

definition exact_match :: "string \<Rightarrow> lead \<Rightarrow> bool" where
  "exact_match p l = (phone_number l = Some p)"

definition last_ten_match :: "string \<Rightarrow> lead \<Rightarrow> bool" where
  "last_ten_match p l =
     (case phone_number l of
        None \<Rightarrow> False
      | Some x \<Rightarrow> sublist (slice_last 10 (replace_nondigits p)) x)"

definition suffix_match :: "string \<Rightarrow> lead \<Rightarrow> bool" where
  "suffix_match p l =
     (\<not> no_phone l
      \<and> (suffix (slice_last 10 (replace_nondigits p)) (replace_nondigits (phone_of l))
         \<or> suffix (slice_last 10 (replace_nondigits (phone_of l))) (replace_nondigits p)))"

definition name_candidates :: "string \<Rightarrow> lead list \<Rightarrow> lead list" where
  "name_candidates n T =
     take 10 (filter (\<lambda>l. sublist (toLowerCase n) (toLowerCase (lead_name l))) T)"

definition last_four_match :: "string \<Rightarrow> lead \<Rightarrow> bool" where
  "last_four_match p l =
     (\<not> no_phone l
      \<and> suffix (slice_last 4 (replace_nondigits p)) (replace_nondigits (phone_of l)))"

definition match_order :: "lead list \<Rightarrow> string \<Rightarrow> string option \<Rightarrow> lead option" where
  "match_order T p nm =
     (case find (exact_match p) T of
        Some l \<Rightarrow> Some l
      | None \<Rightarrow>
       (case find (last_ten_match p) T of
          Some l \<Rightarrow> Some l
        | None \<Rightarrow>
         (case find (suffix_match p) (take 25 T) of
            Some l \<Rightarrow> Some l
          | None \<Rightarrow>
           (case nm of
              None \<Rightarrow> None
            | Some n \<Rightarrow> find (last_four_match p) (name_candidates n T)))))"

subsection \<open>Dispatch conditions and runs\<close>



text \<open>
  The session that \<open>startExecution\<close> starts; the run after \<open>k\<close> ticks whose dispatch
  returns in time, and after a list of events; and what is observed of a session: the
  cursor, whether its timer is still scheduled, whether the hook is executing.
\<close>

definition started :: "lead list \<Rightarrow> world \<Rightarrow> session option" where
  "started leads w =
     (case fst (startExecution leads w) of
        None \<Rightarrow> None
      | Some r0 \<Rightarrow>
          Some \<lparr>sess_run = r0, sess_world = snd (startExecution leads w), awaiting = []\<rparr>)"

definition run_ticks :: "client \<Rightarrow> lead list \<Rightarrow> world \<Rightarrow> nat \<Rightarrow> session option" where
  "run_ticks c leads w k = map_option (settled_ticks c k) (started leads w)"

definition run_schedule ::
    "client \<Rightarrow> lead list \<Rightarrow> world \<Rightarrow> event list \<Rightarrow> session option" where
  "run_schedule c leads w evs = map_option (run_events c evs) (started leads w)"

definition cursor_and_state :: "session \<Rightarrow> nat \<times> bool \<times> bool" where
  "cursor_and_state s =
     (currentIndex (sess_run s),
      run_timer (sess_run s) \<in> fst ` set (timers (sess_world s)),
      isExecuting (sess_world s))"

subsection \<open>Sample data\<close>

text \<open>
  A lead, a state of the dashboard, five pending leads, a provider that accepts every
  call, a host that parses every body but \<open>{\<close> to a given payload and folds the ASCII
  letters, a host that also folds the capital n with tilde (the bytes C3 91, to C3 B1),
  a repository that refuses every update with status 400 and a JSON error body, a
  request, and the webhook of the specification's end-to-end example.
\<close>

definition sample_lead :: "string \<Rightarrow> string \<Rightarrow> lead" where
  "sample_lead i st =
     \<lparr>lead_id = i, lead_name = ''Lead '' @ i, phone_number = Some ''5550102222'',
      phone_id = Some ''line-1'', status = st, disposition = None, duration = None,
      cost = None\<rparr>"

definition sample_world :: "lead list \<Rightarrow> string \<Rightarrow> world" where
  "sample_world rows pacing =
     \<lparr>stored = rows, isExecuting = False, isCallInProgress = False, intervalId = None,
      selectedPacing = pacing, timers = [], next_timer = 0, toasts = [], invoked = []\<rparr>"

definition five_pending :: "lead list" where
  "five_pending = map (\<lambda>i. sample_lead i ''Pending'') [''a'', ''b'', ''c'', ''d'', ''e'']"

text \<open>
  A provider slower than the timer: at two ticks a second and an answer after 1.2 seconds,
  the first call returns after the third tick, and from then on one call returns between
  two ticks.
\<close>

definition slow_provider_schedule :: "event list" where
  "slow_provider_schedule =
     [TimerFires, TimerFires, TimerFires, CallReturns ''a'',
      TimerFires, CallReturns ''a'', TimerFires, CallReturns ''a'',
      TimerFires, CallReturns ''b'', TimerFires, CallReturns ''c'', TimerFires]"

definition sample_client :: client where
  "sample_client = \<lparr>functions_invoke = (\<lambda>i. InvokeData True None), update_error = (\<lambda>i. False)\<rparr>"

definition sample_host :: "jsval \<Rightarrow> host" where
  "sample_host payload =
     \<lparr>JSON_parse = (\<lambda>s. if s = ''{'' then None else Some payload),
      ToString = (\<lambda>v. Inl TypeError), ToNumber = (\<lambda>v. Inl TypeError),
      String_toLowerCase = toLowerCase\<rparr>"

fun fold_enye :: "string \<Rightarrow> string" where
  "fold_enye [] = []"
| "fold_enye [a] = [lower_char a]"
| "fold_enye (a # b # cs) =
     (if a = CHR 0xC3 \<and> b = CHR 0x91 then CHR 0xC3 # CHR 0xB1 # fold_enye cs
      else lower_char a # fold_enye (b # cs))"

definition enye_host :: host where
  "enye_host = (sample_host JNull)\<lparr>String_toLowerCase := fold_enye\<rparr>"


definition sample_request :: "string \<Rightarrow> request" where
  "sample_request m = \<lparr>req_method = m, req_text = Inr ''{...}''\<rparr>"

definition sample_webhook :: jsval where
  "sample_webhook =
     JObj [(''customer'', JObj [(''number'', JStr ''+1 (555) 010-2222'')]),
           (''success'', JBool True), (''durationSeconds'', JNum 90),
           (''summary'', JStr ''not interested, please remove me'')]"

section \<open>Properties of the Payload Normalizer\<close>

lemma js_includes_sublist: "js_includes s t = sublist t s"
  by (induction s) (auto simp: sublist_Cons_right)

lemma truthy_not_zero: "truthy v \<Longrightarrow> v \<noteq> JNum 0"
  by (cases v) auto


lemma double_examples:
  "fl (90 / 60) = 3 / 2"
  "fl (3 / 2) = 3 / 2"
  "fl (99 / 100) = 4458563631096791 / 4503599627370496"
  "fl (297 / 200) = 6687845446645187 / 4503599627370496"
  "calculateCallCost (3 / 2) = 3343922723322593 / 2251799813685248"
  "calculateCallCost 0 = 0"
  by code_simp+

lemma extractDuration_first_truthy:
  "\<not> nullish payload \<Longrightarrow>
   extractDuration payload =
     Inr (case find truthy (duration_paths payload) of Some v \<Rightarrow> v | None \<Rightarrow> JNum 0)"
  by (simp add: extractDuration_def duration_paths_def under_message_def)

text \<open>
  Claim C10. Duration extraction treats a falsy value at a path as absent. When the
  top-level \<open>durationSeconds\<close> is the number 0 and the first truthy value among
  \<open>message.durationSeconds\<close>, \<open>duration\<close> and \<open>message.duration\<close> (tried in
  this order) is a number \<open>d\<close>, the function returns \<open>d\<close>, which is not 0, rather than
  the explicit 0; and it returns the default 0 exactly when all four paths are absent or
  falsy.
\<close>

theorem extractDuration_skips_falsy:
  "(js_get payload ''durationSeconds'' = JNum 0 \<and>
    find truthy [under_message payload ''durationSeconds'', js_get payload ''duration'',
                 under_message payload ''duration''] = Some (JNum d)
    \<longrightarrow> extractDuration payload = Inr (JNum d) \<and> d \<noteq> 0)
   \<and> (\<not> nullish payload \<longrightarrow>
        (extractDuration payload = Inr (JNum 0))
          = (\<forall>v \<in> set (duration_paths payload). \<not> truthy v))"
proof (intro conjI impI)
  assume h: "js_get payload ''durationSeconds'' = JNum 0 \<and>
    find truthy [under_message payload ''durationSeconds'', js_get payload ''duration'',
                 under_message payload ''duration''] = Some (JNum d)"
  then have nn: "\<not> nullish payload"
    by (cases payload) auto
  from h have "find truthy (duration_paths payload) = Some (JNum d)"
    by (simp add: duration_paths_def)
  with nn show "extractDuration payload = Inr (JNum d)"
    by (simp add: extractDuration_first_truthy)
  from h have "truthy (JNum d)"
    by (auto split: if_splits)
  then show "d \<noteq> 0" by simp
next
  assume nn: "\<not> nullish payload"
  show "(extractDuration payload = Inr (JNum 0))
          = (\<forall>v \<in> set (duration_paths payload). \<not> truthy v)"
  proof (cases "find truthy (duration_paths payload)")
    case None
    then have "\<forall>v \<in> set (duration_paths payload). \<not> truthy v"
      by (simp add: find_None_iff)
    then show ?thesis
      using nn None by (simp add: extractDuration_first_truthy)
  next
    case (Some v)
    then have "truthy v" and "v \<in> set (duration_paths payload)"
      by (auto simp: find_Some_iff)
    then show ?thesis
      using nn Some truthy_not_zero [of v] by (auto simp: extractDuration_first_truthy)
  qed
qed

theorem extractDuration_skips_falsy_witness:
  "extractDuration (JObj [(''durationSeconds'', JNum 0),
       (''message'', JObj [(''durationSeconds'', JNum 0), (''duration'', JNum 42)])])
     = Inr (JNum 42)
   \<and> extractDuration (JObj [(''durationSeconds'', JNum 0), (''duration'', JStr [])])
     = Inr (JNum 0)"
  using extractDuration_skips_falsy [of "JObj [(''durationSeconds'', JNum 0),
       (''message'', JObj [(''durationSeconds'', JNum 0), (''duration'', JNum 42)])]" 42]
    extractDuration_skips_falsy [of "JObj [(''durationSeconds'', JNum 0),
       (''duration'', JStr [])]" 0]
  by (simp add: under_message_def duration_paths_def)

text \<open>
  Claim C3. For every payload that reaches status determination (the handler has read
  the keys of the payload before, so it is not \<open>null\<close>), the status is \<open>Failed\<close> if and
  only if the payload carries a failure marker, and \<open>Completed\<close> for every other payload,
  also when the extracted duration is 0.
\<close>

theorem determineCallStatus_failed_iff:
  "\<not> nullish payload \<Longrightarrow>
     (determineCallStatus payload = Inr ''Failed'') = failure_marker payload
     \<and> (\<not> failure_marker payload \<longrightarrow> determineCallStatus payload = Inr ''Completed'')
     \<and> (\<not> failure_marker payload \<and> extractDuration payload = Inr (JNum 0)
          \<longrightarrow> determineCallStatus payload = Inr ''Completed'')"
  by (cases "js_get payload ''status''")
     (auto simp: determineCallStatus_def failure_marker_def under_message_def
        status_includes_fail_def js_includes_sublist toLowerCase_def)

theorem determineCallStatus_failed_iff_witness:
  "determineCallStatus (JObj [(''status'', JStr ''Call FAILED'')]) = Inr ''Failed''
   \<and> determineCallStatus (JObj [(''message'', JObj [(''success'', JBool False)])]) = Inr ''Failed''
   \<and> determineCallStatus (JObj [(''durationSeconds'', JNum 0)]) = Inr ''Completed''
   \<and> extractDuration (JObj [(''durationSeconds'', JNum 0)]) = Inr (JNum 0)"
  using determineCallStatus_failed_iff [of "JObj [(''status'', JStr ''Call FAILED'')]"]
    determineCallStatus_failed_iff [of "JObj [(''message'', JObj [(''success'', JBool False)])]"]
    determineCallStatus_failed_iff [of "JObj [(''durationSeconds'', JNum 0)]"]
  by (simp add: failure_marker_def under_message_def extractDuration_def
      determineCallStatus_def status_includes_fail_def toLowerCase_def lower_char_def)

section \<open>Properties of the Disposition Classifier\<close>

lemma contains_any_simps:
  "contains_any s [] = False"
  "contains_any s (k # ks) = (js_includes s k \<or> contains_any s ks)"
  by (auto simp: contains_any_def js_includes_sublist)

lemma reason_contains_any_simps:
  "reason_contains_any r [] = False"
  "reason_contains_any r (k # ks) = (opt_includes r k \<or> reason_contains_any r ks)"
  by (auto simp: reason_contains_any_def opt_includes_def contains_any_simps split: option.splits)

lemmas keyword_simps = contains_any_simps reason_contains_any_simps

text \<open>The chain of the source is the first match of the table.\<close>

lemma classify_rules:
  assumes "opt_toLowerCase h v = Inr r"
    and "truthy v \<longrightarrow> to_string h v = Inr s"
  shows "classify h c v =
    Inr (first_match (disposition_rules c r (if truthy v then Some s else None)) ''Unknown'')"
proof -
  have fold:
    "(opt_includes r ''customer did not answer''
                \<or> opt_includes r ''customer-did-not-answer''
                \<or> opt_includes r ''twilio failed connection''
                \<or> opt_includes r ''no-answer''
                \<or> opt_includes r ''no_answer'') = no_answer_rule r"
    "(opt_includes r ''assistant forwarded call''
                \<or> opt_includes r ''assistant-forwarded-call'') = warm_transfer_rule r"
    "(js_includes c ''education consultant''
                     \<or> js_includes c ''education advisor''
                     \<or> js_includes c ''forwarded to education''
                     \<or> js_includes c ''transferred to education'') = education_keywords c"
    "(js_includes c ''job consultant''
                     \<or> js_includes c ''job advisor''
                     \<or> js_includes c ''forwarded to job''
                     \<or> js_includes c ''transferred to job'') = job_keywords c"
    "(js_includes c ''do not call''
                \<or> js_includes c ''don't call''
                \<or> js_includes c ''remove me''
                \<or> js_includes c ''stop calling''
                \<or> js_includes c ''take me off''
                \<or> js_includes c ''unsubscribe'') = do_not_contact_rule c"
    "(js_includes c ''language barrier''
                \<or> js_includes c ''no english''
                \<or> js_includes c ''don't speak english''
                \<or> js_includes c (''habla espa'' @ [CHR 0xC3, CHR 0xB1] @ ''ol'')
                \<or> js_includes c ''communication issue''
                \<or> js_includes c ''language problem'') = language_barrier_rule c"
    "(js_includes c ''not qualified''
                \<or> js_includes c ''qualification failed''
                \<or> js_includes c ''no high school diploma''
                \<or> js_includes c ''no ged''
                \<or> js_includes c ''under 18''
                \<or> js_includes c ''not a us citizen''
                \<or> js_includes c ''no green card''
                \<or> js_includes c ''currently enrolled in school''
                \<or> js_includes c ''currently enrolled in college''
                \<or> js_includes c ''still in school''
                \<or> js_includes c ''still in college'') = not_qualified_rule c"
    "(js_includes c ''not interested''
                \<or> js_includes c ''no thanks''
                \<or> js_includes c ''not right now''
                \<or> js_includes c ''not looking''
                \<or> js_includes c ''not for me''
                \<or> js_includes c ''don't want'') = not_interested_rule c"
    "(opt_includes r ''customer ended call''
                \<or> opt_includes r ''customer-ended-call'') = hang_up_rule r"
    by (simp_all only: no_answer_rule_def warm_transfer_rule_def education_keywords_def
        job_keywords_def do_not_contact_rule_def language_barrier_rule_def
        not_qualified_rule_def not_interested_rule_def hang_up_rule_def keyword_simps
        simp_thms)
  have am: "answering_machine_rule c r =
     ((js_includes c ''leave a message''
        \<or> js_includes c ''at the tone''
        \<or> js_includes c ''voicemail''
        \<or> js_includes c ''can't take your call''
        \<or> js_includes c ''after the beep'') \<or> opt_includes r ''voicemail'')"
    by (simp only: answering_machine_rule_def keyword_simps simp_thms)
  show ?thesis
    using assms(2)
    apply (simp only: classify_def assms(1) sum.case)
    apply (simp only: fold)
    apply (simp add: disposition_rules_def am)
    done
qed

lemma endReason_of_cases: "endReason_of payload = JNull \<or> truthy (endReason_of payload)"
  by (simp add: endReason_of_def)

lemma extractDisposition_classify:
  assumes "\<not> nullish payload" and "text_or_absent (summary_of payload)"
    and "content_of h payload = Inr c"
  shows "extractDisposition h payload =
           classify h (String_toLowerCase h c) (endReason_of payload)"
  using assms by (auto simp: extractDisposition_def text_or_absent_def)

text \<open>A truthy summary or end reason that is not a string makes the classifier raise.\<close>

lemma extractDisposition_raises:
  "\<not> nullish payload \<Longrightarrow> \<not> text_or_absent (summary_of payload) \<Longrightarrow>
     extractDisposition h payload = Inl TypeError"
  "\<not> text_or_absent v \<Longrightarrow> \<not> sublist ''leave a message'' c \<Longrightarrow>
     \<not> sublist ''at the tone'' c \<Longrightarrow> \<not> sublist ''voicemail'' c \<Longrightarrow>
     \<not> sublist ''can't take your call'' c \<Longrightarrow> \<not> sublist ''after the beep'' c \<Longrightarrow>
     classify h c v = Inl TypeError"
  by (cases v; simp add: extractDisposition_def text_or_absent_def classify_def
      js_includes_sublist opt_toLowerCase_def)+

lemma classify_answering_machine:
  "sublist ''leave a message'' c \<Longrightarrow> classify h c v = Inr ''Answering Machine''"
  by (simp add: classify_def js_includes_sublist)

lemma sample_host_simps:
  "String_toLowerCase (sample_host p) = toLowerCase"
  "JSON_parse (sample_host p) s = (if s = ''{'' then None else Some p)"
  "ToString (sample_host p) v = Inl TypeError"
  "ToNumber (sample_host p) v = Inl TypeError"
  by (simp_all add: sample_host_def)

text \<open>
  Claim C1. For every payload whose summary and end reason are text or absent (any other
  value makes the classifier raise) and whose content is \<open>c\<close>, the classifier returns the
  label of the first rule of the ordered table that holds of the folded content and the
  folded end reason, whatever the folding of the host: Answering Machine, No Answer, Warm
  Transfer (Education, Job, generic), Do Not Contact, Language Barrier, Not Qualified, Not
  Interested, Hang Up, \<open>Other: <end-reason>\<close>, and \<open>Unknown\<close> when none holds. In
  particular a content whose folding has both "leave a message" and "not interested"
  gives \<open>Answering Machine\<close>, and the end reason "customer-did-not-answer" with no summary
  and no transcript gives \<open>No Answer\<close> (the host folds this end reason and the blank to
  themselves, as JavaScript does with lower-case ASCII text).
\<close>

theorem extractDisposition_first_rule:
  "(\<not> nullish payload \<and> text_or_absent (summary_of payload)
      \<and> text_or_absent (endReason_of payload) \<and> content_of h payload = Inr c
    \<longrightarrow> extractDisposition h payload =
         Inr (first_match
               (disposition_rules (String_toLowerCase h c)
                  (map_option (String_toLowerCase h) (text_of (endReason_of payload)))
                  (text_of (endReason_of payload)))
               ''Unknown''))
   \<and> (\<not> nullish payload \<and> text_or_absent (summary_of payload)
        \<and> content_of h payload = Inr c
        \<and> sublist ''leave a message'' (String_toLowerCase h c)
        \<and> sublist ''not interested'' (String_toLowerCase h c)
      \<longrightarrow> extractDisposition h payload = Inr ''Answering Machine'')
   \<and> (endReason_of payload = JStr ''customer-did-not-answer''
        \<and> \<not> truthy (summary_of payload) \<and> \<not> truthy (transcript_of payload)
        \<and> String_toLowerCase h ''customer-did-not-answer'' = ''customer-did-not-answer''
        \<and> String_toLowerCase h '' '' = '' ''
      \<longrightarrow> extractDisposition h payload = Inr ''No Answer'')"
proof (intro conjI impI)
  assume a: "\<not> nullish payload \<and> text_or_absent (summary_of payload)
      \<and> text_or_absent (endReason_of payload) \<and> content_of h payload = Inr c"
  let ?v = "endReason_of payload"
  let ?lc = "String_toLowerCase h c"
  from a have ed: "extractDisposition h payload = classify h ?lc ?v"
    by (simp add: extractDisposition_classify)
  show "extractDisposition h payload =
         Inr (first_match
               (disposition_rules ?lc
                  (map_option (String_toLowerCase h) (text_of ?v)) (text_of ?v))
               ''Unknown'')"
  proof (cases "truthy ?v")
    case False
    then have "?v = JNull" using endReason_of_cases [of payload] by simp
    then have "opt_toLowerCase h ?v = Inr None" and "text_of ?v = None"
      and "\<not> truthy ?v"
      by (simp_all add: opt_toLowerCase_def text_of_def)
    then show ?thesis
      using classify_rules [of h ?v None "[]" ?lc] ed by simp
  next
    case True
    with a obtain s where s: "?v = JStr s" "s \<noteq> []"
      by (cases ?v) (auto simp: text_or_absent_def)
    then have "opt_toLowerCase h ?v = Inr (Some (String_toLowerCase h s))"
      and "text_of ?v = Some s" and "to_string h ?v = Inr s"
      by (simp_all add: opt_toLowerCase_def text_of_def to_string_def)
    then show ?thesis
      using classify_rules [of h ?v "Some (String_toLowerCase h s)" s ?lc] ed True
      by simp
  qed
next
  assume "\<not> nullish payload \<and> text_or_absent (summary_of payload)
        \<and> content_of h payload = Inr c
        \<and> sublist ''leave a message'' (String_toLowerCase h c)
        \<and> sublist ''not interested'' (String_toLowerCase h c)"
  then show "extractDisposition h payload = Inr ''Answering Machine''"
    by (simp add: extractDisposition_classify classify_answering_machine)
next
  assume b: "endReason_of payload = JStr ''customer-did-not-answer''
        \<and> \<not> truthy (summary_of payload) \<and> \<not> truthy (transcript_of payload)
        \<and> String_toLowerCase h ''customer-did-not-answer'' = ''customer-did-not-answer''
        \<and> String_toLowerCase h '' '' = '' ''"
  then have nn: "\<not> nullish payload"
    by (cases payload) (auto simp: endReason_of_def)
  from b have c: "content_of h payload = Inr '' ''"
    by (simp add: content_of_def js_or_def to_string_def)
  from b have "classify h '' '' (JStr ''customer-did-not-answer'') = Inr ''No Answer''"
    by (simp add: classify_def opt_toLowerCase_def opt_includes_def)
  with b nn c show "extractDisposition h payload = Inr ''No Answer''"
    by (simp add: extractDisposition_classify text_or_absent_def)
qed

theorem extractDisposition_first_rule_witness:
  "extractDisposition (sample_host JNull)
        (JObj [(''endedReason'', JStr ''customer-ended-call''),
               (''summary'', JStr ''Not interested. Please LEAVE A MESSAGE'')])
      = Inr ''Answering Machine''
   \<and> extractDisposition (sample_host JNull)
        (JObj [(''message'', JObj [(''endedReason'', JStr ''Customer-Ended-Call'')]),
               (''transcript'', JStr ''Sorry, not looking'')])
      = Inr ''Not Interested''
   \<and> extractDisposition (sample_host JNull)
        (JObj [(''endedReason'', JStr ''customer-did-not-answer'')])
      = Inr ''No Answer''
   \<and> extractDisposition enye_host
        (JObj [(''summary'', JStr (''HABLA ESPA'' @ [CHR 0xC3, CHR 0x91] @ ''OL''))])
      = Inr ''Language Barrier''"
  using extractDisposition_first_rule [of
      "JObj [(''endedReason'', JStr ''customer-ended-call''),
             (''summary'', JStr ''Not interested. Please LEAVE A MESSAGE'')]"
      "sample_host JNull" "''Not interested. Please LEAVE A MESSAGE ''"]
    extractDisposition_first_rule [of
      "JObj [(''message'', JObj [(''endedReason'', JStr ''Customer-Ended-Call'')]),
             (''transcript'', JStr ''Sorry, not looking'')]"
      "sample_host JNull" "'' Sorry, not looking''"]
    extractDisposition_first_rule [of
      "JObj [(''endedReason'', JStr ''customer-did-not-answer'')]" "sample_host JNull" "'' ''"]
    extractDisposition_first_rule [of
      "JObj [(''summary'', JStr (''HABLA ESPA'' @ [CHR 0xC3, CHR 0x91] @ ''OL''))]"
      enye_host "''HABLA ESPA'' @ [CHR 0xC3, CHR 0x91] @ ''OL ''"]
  by (simp add: summary_of_def endReason_of_def transcript_of_def content_of_def
      js_or_def to_string_def text_or_absent_def text_of_def toLowerCase_def
      lower_char_def disposition_rules_def keyword_simps answering_machine_rule_def
      no_answer_rule_def warm_transfer_rule_def education_keywords_def job_keywords_def
      do_not_contact_rule_def language_barrier_rule_def not_qualified_rule_def
      not_interested_rule_def hang_up_rule_def opt_includes_def sublist_code
      sample_host_simps enye_host_def)

section \<open>Properties of the Lead Matcher\<close>

lemma endsWith_suffix: "endsWith s t = suffix t s"
proof
  assume "endsWith s t"
  then have "s = take (length s - length t) s @ t"
    by (metis append_take_drop_id endsWith_def)
  then show "suffix t s" by (metis suffixI)
next
  assume "suffix t s"
  then obtain u where "s = u @ t" by (auto simp: suffix_def)
  then show "endsWith s t" by (simp add: endsWith_def)
qed

lemma suffix_slice_last: "suffix (slice_last n s) s"
  by (simp add: slice_last_def suffix_drop)

lemma first_row_take_filter: "first_row (Rows (take (Suc 0) (filter P T))) = find P T"
  by (induction T) (auto simp: first_row_def)

lemma lower_digit: "is_digit c \<Longrightarrow> lower_char c = c"
  unfolding is_digit_def by auto (simp_all add: lower_char_def)

lemma toLowerCase_digits: "toLowerCase (replace_nondigits s) = replace_nondigits s"
  by (induction s) (auto simp: toLowerCase_def replace_nondigits_def lower_digit)

lemma letter_not_digit: "l \<in> set ''abcdefghijklmnopqrstuvwxyz'' \<Longrightarrow> \<not> is_digit l"
  unfolding is_digit_def by auto

lemma digit_lower:
  assumes "is_digit (lower_char c)"
  shows "lower_char c = c"
proof (cases "map_of (zip ''ABCDEFGHIJKLMNOPQRSTUVWXYZ'' ''abcdefghijklmnopqrstuvwxyz'') c")
  case None
  then show ?thesis unfolding lower_char_def by (simp only: option.case)
next
  case (Some l)
  then have l: "lower_char c = l" unfolding lower_char_def by (simp only: option.case)
  from Some have "l \<in> set ''abcdefghijklmnopqrstuvwxyz''"
    by (metis map_of_SomeD set_zip_rightD)
  then have "\<not> is_digit l" by (rule letter_not_digit)
  with assms l show ?thesis by simp
qed

lemma toLowerCase_eq_digits:
  "toLowerCase s = d \<Longrightarrow> \<forall>c \<in> set d. is_digit c \<Longrightarrow> s = d"
proof (induction s arbitrary: d)
  case Nil
  then show ?case by (simp add: toLowerCase_def)
next
  case (Cons c s)
  then obtain e d' where d: "d = e # d'" "lower_char c = e" "toLowerCase s = d'"
    by (auto simp: toLowerCase_def)
  with Cons.prems(2) have "is_digit (lower_char c)" by simp
  then have "lower_char c = c" by (rule digit_lower)
  with Cons.IH [of d'] d Cons.prems(2) show ?case by simp
qed

lemma sublist_toLowerCase_digits:
  assumes "\<forall>c \<in> set d. is_digit c"
  shows "sublist d (toLowerCase x) = sublist d x"
proof
  assume "sublist d (toLowerCase x)"
  then obtain ps ss where "map lower_char x = ps @ d @ ss"
    by (auto simp: sublist_def toLowerCase_def)
  then obtain ps' vs where v: "x = ps' @ vs" "d @ ss = map lower_char vs"
    by (auto simp: map_eq_append_conv)
  from v(2) obtain d' ss' where "vs = d' @ ss'" and "map lower_char d' = d"
    by (auto simp: append_eq_map_conv)
  with v(1) have x: "x = ps' @ d' @ ss'" and "map lower_char d' = d"
    by simp_all
  then have "d' = d"
    using toLowerCase_eq_digits [of d' d] assms by (simp add: toLowerCase_def)
  with x show "sublist d x" by (auto simp: sublist_def)
next
  assume "sublist d x"
  then obtain ps ss where "x = ps @ d @ ss" by (auto simp: sublist_def)
  moreover have "toLowerCase d = d"
    using assms by (induction d) (auto simp: toLowerCase_def lower_digit)
  ultimately have "toLowerCase x = toLowerCase ps @ d @ toLowerCase ss"
    by (simp add: toLowerCase_def)
  then show "sublist d (toLowerCase x)" by (auto simp: sublist_def)
qed

lemma slice_digits_are_digits: "\<forall>c \<in> set (slice_last n (replace_nondigits s)). is_digit c"
  by (auto simp: slice_last_def replace_nondigits_def dest: in_set_dropD)

lemma toLowerCase_drop: "toLowerCase (drop n s) = drop n (toLowerCase s)"
  by (simp add: toLowerCase_def drop_map)

lemma toLowerCase_slice_digits:
  "toLowerCase (slice_last n (replace_nondigits s)) = slice_last n (replace_nondigits s)"
  by (simp add: slice_last_def toLowerCase_drop toLowerCase_digits)

lemma ilike_contains:
  "ilike (CHR ''%'' # x @ ''%'') v = sublist (toLowerCase x) (toLowerCase v)"
  by (simp add: ilike_def js_includes_sublist)

lemma column_simps:
  "column ''phone_number'' l = phone_number l"
  "column ''name'' l = Some (lead_name l)"
  "column ''id'' l = Some (lead_id l)"
  by (simp_all add: column_def)

lemma scan_cleaned_find:
  "scan_cleaned (replace_nondigits p) (slice_last 10 (replace_nondigits p)) ls
     = find (suffix_match p) ls"
proof (induction ls)
  case Nil
  then show ?case by simp
next
  case (Cons l ls)
  let ?c = "replace_nondigits p" and ?lc = "replace_nondigits (phone_of l)"
  have "(?lc = ?c \<or> slice_last 10 ?lc = slice_last 10 ?c
          \<or> endsWith ?lc (slice_last 10 ?c) \<or> endsWith ?c (slice_last 10 ?lc))
        = (suffix (slice_last 10 ?c) ?lc \<or> suffix (slice_last 10 ?lc) ?c)"
    using suffix_slice_last [of 10 ?c] suffix_slice_last [of 10 ?lc]
    by (auto simp: endsWith_suffix)
  with Cons show ?case
    by (simp add: suffix_match_def Let_def)
qed

lemma scan_last_four_find:
  "scan_last_four (slice_last 4 (replace_nondigits p)) ls = find (last_four_match p) ls"
  by (induction ls) (auto simp: last_four_match_def endsWith_suffix)

lemma findLeadByPhoneNumber_table:
  "findLeadByPhoneNumber h (table_repo T) (JStr p) =
     Inr (case find (exact_match p) T of
        Some l \<Rightarrow> Some l
      | None \<Rightarrow>
       (case find (last_ten_match p) T of
          Some l \<Rightarrow> Some l
        | None \<Rightarrow> find (suffix_match p) (take 25 T)))"
proof -
  have e: "(\<lambda>l. column ''phone_number'' l = Some p) = exact_match p"
    by (auto simp: column_simps exact_match_def)
  have t: "(\<lambda>l. case column ''phone_number'' l of None \<Rightarrow> False
             | Some x \<Rightarrow> ilike (CHR ''%'' # slice_last 10 (replace_nondigits p) @ ''%'') x)
           = last_ten_match p"
    by (auto simp: column_simps last_ten_match_def ilike_contains toLowerCase_slice_digits
        sublist_toLowerCase_digits slice_digits_are_digits split: option.splits)
  show ?thesis
    by (simp add: findLeadByPhoneNumber_def table_repo_def to_string_def Let_def
        first_row_take_filter e t scan_cleaned_find split: option.splits)
qed

lemma findLeadByNameAndPhone_table:
  "findLeadByNameAndPhone h (table_repo T) (JStr n) (JStr p) =
     Inr (find (last_four_match p) (name_candidates n T))"
proof -
  have "(\<lambda>l. case column ''name'' l of None \<Rightarrow> False
           | Some x \<Rightarrow> ilike (CHR ''%'' # n @ ''%'') x)
        = (\<lambda>l. sublist (toLowerCase n) (toLowerCase (lead_name l)))"
    by (simp add: column_simps ilike_contains)
  then show ?thesis
    by (simp add: findLeadByNameAndPhone_def table_repo_def to_string_def Let_def
        scan_last_four_find name_candidates_def)
qed

lemma json_response_simps:
  "http_status (json_response ok msg err) = 200"
  "body (json_response ok msg err) = Some \<lparr>success = ok, message = msg, error = err\<rparr>"
  by (simp_all add: json_response_def)

lemma text_of_cases:
  "text_or_absent nm \<Longrightarrow>
     (\<not> truthy nm \<and> text_of nm = None) \<or> (\<exists>n. nm = JStr n \<and> n \<noteq> [] \<and> text_of nm = Some n)"
  by (cases nm) (auto simp: text_or_absent_def text_of_def)

lemma resolve_contact_table:
  assumes "extractCustomerName payload = Inr nm" and "text_or_absent nm"
    and "\<not> truthy contactId" and "p \<noteq> []"
  shows "resolve_contact h (table_repo T) payload contactId (JStr p) =
           Inr (case match_order T p (text_of nm) of
                  Some l \<Rightarrow> JStr (lead_id l) | None \<Rightarrow> contactId)"
  using assms text_of_cases [OF assms(2)]
  by (auto simp: resolve_contact_def findLeadByPhoneNumber_table
      findLeadByNameAndPhone_table match_order_def split: option.splits)

lemma resolve_contact_found:
  assumes "\<not> truthy contactId" and "p \<noteq> []" and "find (exact_match p) T = None"
    and "find (last_ten_match p) T = Some l"
  shows "resolve_contact h (table_repo T) payload contactId (JStr p) = Inr (JStr (lead_id l))"
  using assms by (simp add: resolve_contact_def findLeadByPhoneNumber_table)

lemma resolve_contact_exact:
  assumes "\<not> truthy contactId" and "p \<noteq> []" and "find (exact_match p) T = Some l"
  shows "resolve_contact h (table_repo T) payload contactId (JStr p) = Inr (JStr (lead_id l))"
  using assms by (simp add: resolve_contact_def findLeadByPhoneNumber_table)

lemma determineCallStatus_total:
  "\<not> nullish payload \<Longrightarrow> \<exists>st. determineCallStatus payload = Inr st"
  by (simp add: determineCallStatus_def)

lemma extractContactId_not_nullish: "extractContactId payload = Inr c \<Longrightarrow> \<not> nullish payload"
  by (auto simp: extractContactId_def split: if_splits)

lemma process_unmatched:
  assumes "req_text req = Inr raw" and "JSON_parse h raw = Some payload"
    and "extractContactId payload = Inr contactId" and "\<not> truthy contactId"
    and "extractPhoneNumber payload = Inr phoneNumber" and "truthy phoneNumber"
    and "resolve_contact h r payload contactId phoneNumber = Inr contactId"
  shows "case process h r req of
           Inl e \<Rightarrow> True
         | Inr out \<Rightarrow> out = \<lparr>response = json_response True ''Webhook processed successfully'' None,
                              patch = None\<rparr>"
  using assms extractContactId_not_nullish [OF assms(3)]
  by (auto simp: process_def Let_def split: sum.splits)

lemma process_unmatched_ok:
  assumes "req_text req = Inr raw" and "JSON_parse h raw = Some payload"
    and "extractContactId payload = Inr contactId" and "\<not> truthy contactId"
    and "extractPhoneNumber payload = Inr phoneNumber" and "truthy phoneNumber"
    and "resolve_contact h r payload contactId phoneNumber = Inr contactId"
    and "extractDisposition h payload = Inr d" and "extractDuration payload = Inr dur"
    and "to_number h dur = Inr secs"
  shows "process h r req =
           Inr \<lparr>response = json_response True ''Webhook processed successfully'' None,
                patch = None\<rparr>"
  using assms extractContactId_not_nullish [OF assms(3)]
    determineCallStatus_total [of payload]
  by (auto simp: process_def Let_def split: sum.splits)

lemma last_ten_match_example:
  "phone_number l = Some ''5550102222'' \<Longrightarrow> last_ten_match ''+1 (555) 010-2222'' l"
  by (simp add: last_ten_match_def replace_nondigits_def is_digit_def slice_last_def)

text \<open>
  Claim C5. Without a contact id and with a phone number \<open>p\<close> (a non-empty string; the
  customer's name a string or absent), the lookup over the stored leads \<open>T\<close> answers with
  the lead of the first of the four steps that finds one, in the order exact match, last
  ten digits contained, ends compared among the first 25 leads, name and last four
  digits; it keeps the absent id when no step finds a lead. In particular the incoming
  number "+1 (555) 010-2222" is matched to a stored lead when some stored lead has the
  number "5550102222" (by the exact step or the last-ten-digits step). When no step finds
  a lead the handler sends no update and still answers with status 200, with
  \<open>success: true\<close> unless an extraction raised.
\<close>

theorem lead_matcher_steps:
  "(extractCustomerName payload = Inr nm \<and> text_or_absent nm \<and> \<not> truthy contactId \<and> p \<noteq> []
      \<longrightarrow> resolve_contact h (table_repo T) payload contactId (JStr p) =
            Inr (case match_order T p (text_of nm) of
                   Some l \<Rightarrow> JStr (lead_id l) | None \<Rightarrow> contactId))
   \<and> (\<not> truthy contactId \<and> l \<in> set T \<and> phone_number l = Some ''5550102222''
      \<longrightarrow> (\<exists>l' \<in> set T.
             resolve_contact h (table_repo T) payload contactId (JStr ''+1 (555) 010-2222'')
               = Inr (JStr (lead_id l'))
             \<and> (exact_match ''+1 (555) 010-2222'' l' \<or> last_ten_match ''+1 (555) 010-2222'' l')))
   \<and> (req_method req \<noteq> ''OPTIONS'' \<and> req_text req = Inr raw \<and> JSON_parse h raw = Some payload
        \<and> extractContactId payload = Inr contactId \<and> \<not> truthy contactId
        \<and> extractPhoneNumber payload = Inr (JStr p) \<and> p \<noteq> []
        \<and> extractCustomerName payload = Inr nm \<and> text_or_absent nm
        \<and> match_order T p (text_of nm) = None
      \<longrightarrow> patch (serve h (table_repo T) req) = None
          \<and> http_status (response (serve h (table_repo T) req)) = 200
          \<and> (extractDisposition h payload = Inr d \<and> extractDuration payload = Inr dur
               \<and> to_number h dur = Inr secs
             \<longrightarrow> response (serve h (table_repo T) req)
                   = json_response True ''Webhook processed successfully'' None))"
proof (intro conjI impI)
  assume "extractCustomerName payload = Inr nm \<and> text_or_absent nm \<and> \<not> truthy contactId
            \<and> p \<noteq> []"
  then show "resolve_contact h (table_repo T) payload contactId (JStr p) =
            Inr (case match_order T p (text_of nm) of
                   Some l \<Rightarrow> JStr (lead_id l) | None \<Rightarrow> contactId)"
    by (simp add: resolve_contact_table)
next
  let ?p = "''+1 (555) 010-2222''"
  assume a: "\<not> truthy contactId \<and> l \<in> set T \<and> phone_number l = Some ''5550102222''"
  then have "last_ten_match ?p l" by (simp add: last_ten_match_example)
  with a have ex: "\<exists>x \<in> set T. last_ten_match ?p x" by blast
  show "\<exists>l' \<in> set T.
             resolve_contact h (table_repo T) payload contactId (JStr ?p)
               = Inr (JStr (lead_id l'))
             \<and> (exact_match ?p l' \<or> last_ten_match ?p l')"
  proof (cases "find (exact_match ?p) T")
    case (Some l')
    then have "l' \<in> set T" and "exact_match ?p l'"
      by (auto simp: find_Some_iff in_set_conv_nth)
    with a Some show ?thesis
      using resolve_contact_exact [of contactId ?p T l' h payload] by auto
  next
    case None
    from ex obtain l' where f: "find (last_ten_match ?p) T = Some l'"
      by (cases "find (last_ten_match ?p) T") (auto simp: find_None_iff)
    then have "l' \<in> set T" and "last_ten_match ?p l'"
      by (auto simp: find_Some_iff in_set_conv_nth)
    with a None f show ?thesis
      using resolve_contact_found [of contactId ?p T l' h payload] by auto
  qed
next
  assume a: "req_method req \<noteq> ''OPTIONS'' \<and> req_text req = Inr raw
        \<and> JSON_parse h raw = Some payload
        \<and> extractContactId payload = Inr contactId \<and> \<not> truthy contactId
        \<and> extractPhoneNumber payload = Inr (JStr p) \<and> p \<noteq> []
        \<and> extractCustomerName payload = Inr nm \<and> text_or_absent nm
        \<and> match_order T p (text_of nm) = None"
  then have rc: "resolve_contact h (table_repo T) payload contactId (JStr p) = Inr contactId"
    by (simp add: resolve_contact_table)
  have pr: "case process h (table_repo T) req of
           Inl e \<Rightarrow> True
         | Inr out \<Rightarrow> out = \<lparr>response = json_response True ''Webhook processed successfully'' None,
                              patch = None\<rparr>"
    using a rc process_unmatched [of req raw h payload contactId "JStr p" "table_repo T"]
    by simp
  from a pr show "patch (serve h (table_repo T) req) = None"
    by (auto simp: serve_def split: sum.splits)
  from a pr show "http_status (response (serve h (table_repo T) req)) = 200"
    by (auto simp: serve_def json_response_simps split: sum.splits)
  assume "extractDisposition h payload = Inr d \<and> extractDuration payload = Inr dur
               \<and> to_number h dur = Inr secs"
  with a rc have "process h (table_repo T) req =
           Inr \<lparr>response = json_response True ''Webhook processed successfully'' None,
                patch = None\<rparr>"
    using process_unmatched_ok [of req raw h payload contactId "JStr p" "table_repo T" d dur secs]
    by simp
  with a show "response (serve h (table_repo T) req)
                   = json_response True ''Webhook processed successfully'' None"
    by (simp add: serve_def)
qed

theorem lead_matcher_steps_witness:
  "resolve_contact (sample_host JNull) (table_repo [sample_lead ''a'' ''In Progress''])
        (JObj []) JNull (JStr ''+1 (555) 010-2222'')
      = Inr (JStr ''a'')
   \<and> resolve_contact (sample_host JNull)
        (table_repo [(sample_lead ''a'' ''In Progress'')\<lparr>phone_number := Some ''(555) 010-2222''\<rparr>])
        (JObj [(''customer'', JObj [(''name'', JStr ''lead'')])]) JNull (JStr ''+44 2222'')
      = Inr (JStr ''a'')
   \<and> serve (sample_host (JObj [(''customer'', JObj [(''number'', JStr ''999'')])]))
        (table_repo [sample_lead ''a'' ''In Progress'']) (sample_request ''POST'')
      = \<lparr>response = json_response True ''Webhook processed successfully'' None, patch = None\<rparr>"
proof -
  let ?l = "sample_lead ''a'' ''In Progress''"
  let ?l2 = "(sample_lead ''a'' ''In Progress'')\<lparr>phone_number := Some ''(555) 010-2222''\<rparr>"
  let ?pl = "JObj [(''customer'', JObj [(''number'', JStr ''999'')])]"
  have 1: "resolve_contact (sample_host JNull) (table_repo [?l]) (JObj []) JNull
             (JStr ''+1 (555) 010-2222'') = Inr (JStr ''a'')"
    using lead_matcher_steps [where contactId = JNull and l = ?l and T = "[?l]"
        and h = "sample_host JNull" and payload = "JObj []"]
    by (simp add: sample_lead_def)
  have 2: "resolve_contact (sample_host JNull) (table_repo [?l2])
          (JObj [(''customer'', JObj [(''name'', JStr ''lead'')])]) JNull (JStr ''+44 2222'')
        = Inr (JStr ''a'')"
    using lead_matcher_steps [where contactId = JNull and T = "[?l2]"
        and h = "sample_host JNull"
        and payload = "JObj [(''customer'', JObj [(''name'', JStr ''lead'')])]"
        and nm = "JStr ''lead''" and p = "''+44 2222''"]
    by (simp add: extractCustomerName_def text_or_absent_def text_of_def match_order_def
        exact_match_def last_ten_match_def suffix_match_def last_four_match_def
        name_candidates_def no_phone_def phone_of_def replace_nondigits_def is_digit_def
        slice_last_def toLowerCase_def lower_char_def sublist_code suffix_to_prefix
        sample_lead_def)
  have 3: "serve (sample_host ?pl) (table_repo [?l]) (sample_request ''POST'')
        = \<lparr>response = json_response True ''Webhook processed successfully'' None, patch = None\<rparr>"
    using lead_matcher_steps [where contactId = JNull and T = "[?l]"
        and h = "sample_host ?pl" and payload = ?pl and nm = JNull and p = "''999''"
        and raw = "''{...}''" and req = "sample_request ''POST''"
        and d = "''Unknown''" and dur = "JNum 0" and secs = "Some 0"]
    by (simp add: extractCustomerName_def extractContactId_def extractPhoneNumber_def
        extractDuration_def to_number_def sample_host_def sample_request_def
        text_or_absent_def text_of_def match_order_def
        exact_match_def last_ten_match_def suffix_match_def last_four_match_def
        name_candidates_def no_phone_def phone_of_def replace_nondigits_def is_digit_def
        slice_last_def toLowerCase_def lower_char_def sublist_code suffix_to_prefix
        extractDisposition_def summary_of_def transcript_of_def endReason_of_def
        content_of_def js_or_def to_string_def classify_def opt_toLowerCase_def
        opt_includes_def serve_def sample_lead_def)
  from 1 2 3 show ?thesis by simp
qed

section \<open>Properties of the Webhook Ingestor\<close>

lemma process_patch_fields:
  assumes "process h r req = Inr out" and "patch out = Some (cid, u)"
  shows "\<exists>raw payload dur secs st disp.
           req_text req = Inr raw \<and> JSON_parse h raw = Some payload
           \<and> extractDuration payload = Inr dur \<and> to_number h dur = Inr secs
           \<and> determineCallStatus payload = Inr st
           \<and> extractDisposition h payload = Inr disp
           \<and> u = \<lparr>new_status = st, new_disposition = disp,
                   new_duration = map_option (\<lambda>d. fl (d / 60)) secs,
                   new_cost = map_option calculateCallCost
                                (map_option (\<lambda>d. fl (d / 60)) secs)\<rparr>"
  using assms unfolding process_def Let_def
  by (auto split: sum.splits option.splits if_splits update_reply.splits)







lemma serve_patch_process:
  "patch (serve h r req) = Some x \<Longrightarrow>
     req_method req \<noteq> ''OPTIONS'' \<and> (\<exists>out. process h r req = Inr out \<and> serve h r req = out)"
  by (auto simp: serve_def split: if_splits sum.splits)










lemma sample_webhook_extracted:
  "extractContactId sample_webhook = Inr JNull"
  "extractPhoneNumber sample_webhook = Inr (JStr ''+1 (555) 010-2222'')"
  "extractDisposition (sample_host x) sample_webhook = Inr ''Do Not Contact''"
  "extractDuration sample_webhook = Inr (JNum 90)"
  "determineCallStatus sample_webhook = Inr ''Completed''"
  by (simp_all add: sample_webhook_def extractContactId_def extractPhoneNumber_def
      extractDisposition_def extractDuration_def determineCallStatus_def summary_of_def
      transcript_of_def endReason_of_def content_of_def js_or_def to_string_def
      toLowerCase_def lower_char_def classify_def opt_toLowerCase_def opt_includes_def
      sample_host_simps)

lemma sample_webhook_resolved:
  "resolve_contact h (table_repo [sample_lead ''a'' ''In Progress'']) sample_webhook JNull
     (JStr ''+1 (555) 010-2222'') = Inr (JStr ''a'')"
proof -
  have "find (exact_match ''+1 (555) 010-2222'') [sample_lead ''a'' ''In Progress''] = None"
    by (simp add: exact_match_def sample_lead_def)
  moreover have "find (last_ten_match ''+1 (555) 010-2222'') [sample_lead ''a'' ''In Progress'']
      = Some (sample_lead ''a'' ''In Progress'')"
    by (simp add: last_ten_match_example sample_lead_def)
  ultimately show ?thesis
    using resolve_contact_found [of JNull "''+1 (555) 010-2222''"
        "[sample_lead ''a'' ''In Progress'']" "sample_lead ''a'' ''In Progress''" h
        sample_webhook]
    by (simp add: sample_lead_def)
qed

text \<open>
  Claim C4, as the code has it. When the handler sends an update for a payload whose
  extracted duration is the number \<open>d\<close> (seconds), the update stores \<open>d / 60\<close> as the
  duration and \<open>(d / 60) * 0.99\<close> as the cost, both in double arithmetic; the cost is
  computed, and read from no field of the payload. For \<open>durationSeconds: 90\<close> the duration
  is 1.5 and the cost is the double 1.4849999999999999, which is
  3343922723322593 / 2251799813685248: it is below 1.485, and below the double nearest
  to 1.485, because 0.99 is not a double.
\<close>

theorem update_duration_cost:
  "(patch (serve h r req) = Some (cid, u) \<and> req_text req = Inr raw
      \<and> JSON_parse h raw = Some payload \<and> extractDuration payload = Inr (JNum d)
    \<longrightarrow> new_duration u = Some (fl (d / 60))
        \<and> new_cost u = Some (fl (fl (d / 60) * fl (99 / 100))))
   \<and> (patch (serve h r req) = Some (cid, u) \<and> req_text req = Inr raw
      \<and> JSON_parse h raw = Some payload \<and> js_get payload ''durationSeconds'' = JNum 90
    \<longrightarrow> new_duration u = Some (3 / 2)
        \<and> new_cost u = Some (3343922723322593 / 2251799813685248))
   \<and> calculateCallCost (fl (d / 60)) = fl (fl (d / 60) * fl (99 / 100))"
proof -
  have gen: "new_duration u = Some (fl (x / 60))
      \<and> new_cost u = Some (calculateCallCost (fl (x / 60)))"
    if "patch (serve h r req) = Some (cid, u)" "req_text req = Inr raw"
      "JSON_parse h raw = Some payload" "extractDuration payload = Inr (JNum x)" for x
  proof -
    from that(1) obtain out where o: "process h r req = Inr out" "serve h r req = out"
      using serve_patch_process [of h r req "(cid, u)"] by auto
    with that(1) have "patch out = Some (cid, u)" by simp
    from process_patch_fields [OF o(1) this] that(2-4) show ?thesis
      by (auto simp: to_number_def)
  qed
  have ninety: "extractDuration payload = Inr (JNum 90)"
    if "js_get payload ''durationSeconds'' = JNum 90"
    using that by (cases payload) (auto simp: extractDuration_def)
  have cost: "calculateCallCost m = fl (m * fl (99 / 100))" for m
    by (simp add: calculateCallCost_def minuteRate_def)
  show ?thesis
  proof (intro conjI impI)
    assume "patch (serve h r req) = Some (cid, u) \<and> req_text req = Inr raw
      \<and> JSON_parse h raw = Some payload \<and> extractDuration payload = Inr (JNum d)"
    then show "new_duration u = Some (fl (d / 60))"
      and "new_cost u = Some (fl (fl (d / 60) * fl (99 / 100)))"
      using gen [of d] by (simp_all add: cost)
  next
    assume a: "patch (serve h r req) = Some (cid, u) \<and> req_text req = Inr raw
      \<and> JSON_parse h raw = Some payload \<and> js_get payload ''durationSeconds'' = JNum 90"
    then have "new_duration u = Some (fl (90 / 60))
      \<and> new_cost u = Some (calculateCallCost (fl (90 / 60)))"
      using gen [of 90] ninety by blast
    then show "new_duration u = Some (3 / 2)"
      and "new_cost u = Some (3343922723322593 / 2251799813685248)"
      by (simp_all only: double_examples)
  next
    show "calculateCallCost (fl (d / 60)) = fl (fl (d / 60) * fl (99 / 100))"
      by (rule cost)
  qed
qed

lemma sample_webhook_patch:
  "patch (serve (sample_host sample_webhook) (table_repo [sample_lead ''a'' ''In Progress''])
            (sample_request ''POST''))
     = Some (''a'', \<lparr>new_status = ''Completed'', new_disposition = ''Do Not Contact'',
                      new_duration = Some (fl (90 / 60)),
                      new_cost = Some (calculateCallCost (fl (90 / 60)))\<rparr>)"
proof -
  let ?h = "sample_host sample_webhook"
  let ?r = "table_repo [sample_lead ''a'' ''In Progress'']"
  have hp: "JSON_parse ?h ''{...}'' = Some sample_webhook"
    by (simp add: sample_host_def)
  have nn: "\<not> nullish sample_webhook" by (simp add: sample_webhook_def)
  have up: "update_eq ?r u c v = UpdateDone" for u c v
    by (simp add: update_eq_def table_repo_def)
  have "process ?h ?r (sample_request ''POST'')
      = Inr \<lparr>response = json_response True ''Webhook processed successfully'' None,
             patch = Some (''a'', \<lparr>new_status = ''Completed'',
                      new_disposition = ''Do Not Contact'',
                      new_duration = map_option (\<lambda>d. fl (d / 60)) (Some 90),
                      new_cost = map_option calculateCallCost
                                   (map_option (\<lambda>d. fl (d / 60)) (Some 90))\<rparr>)\<rparr>"
    unfolding process_def sample_request_def
    by (simp only: request.simps sum.case hp option.case nn if_False if_True
        sample_webhook_extracted sample_webhook_resolved to_number_def jsval.case Let_def
        truthy.simps to_string_def up update_reply.case list.simps simp_thms)
  then show ?thesis
    by (simp add: serve_def sample_request_def)
qed

theorem update_duration_cost_witness:
  "patch (serve (sample_host sample_webhook) (table_repo [sample_lead ''a'' ''In Progress''])
            (sample_request ''POST''))
     = Some (''a'', \<lparr>new_status = ''Completed'', new_disposition = ''Do Not Contact'',
                      new_duration = Some (3 / 2),
                      new_cost = Some (3343922723322593 / 2251799813685248)\<rparr>)"
proof -
  let ?h = "sample_host sample_webhook"
  let ?r = "table_repo [sample_lead ''a'' ''In Progress'']"
  let ?u = "\<lparr>new_status = ''Completed'', new_disposition = ''Do Not Contact'',
             new_duration = Some (fl (90 / 60)),
             new_cost = Some (calculateCallCost (fl (90 / 60)))\<rparr>"
  have hp: "JSON_parse ?h ''{...}'' = Some sample_webhook"
    by (simp add: sample_host_def)
  have rt: "req_text (sample_request ''POST'') = Inr ''{...}''"
    by (simp add: sample_request_def)
  have dj: "js_get sample_webhook ''durationSeconds'' = JNum 90"
    by (simp add: sample_webhook_def)
  have "new_duration ?u = Some (3 / 2)
      \<and> new_cost ?u = Some (3343922723322593 / 2251799813685248)"
    using update_duration_cost [of ?h ?r "sample_request ''POST''" "''a''" ?u "''{...}''"
        sample_webhook] hp rt dj sample_webhook_patch
    by blast
  then have "?u = \<lparr>new_status = ''Completed'', new_disposition = ''Do Not Contact'',
      new_duration = Some (3 / 2),
      new_cost = Some (3343922723322593 / 2251799813685248)\<rparr>"
    by simp
  with sample_webhook_patch show ?thesis by (simp only:)
qed

theorem update_cost_rounding_counterexample:
  "map_option (new_cost \<circ> snd)
       (patch (serve (sample_host sample_webhook)
                 (table_repo [sample_lead ''a'' ''In Progress'']) (sample_request ''POST'')))
     = Some (Some (3343922723322593 / 2251799813685248))
   \<and> (3343922723322593 / 2251799813685248 :: rat) < 297 / 200
   \<and> (3343922723322593 / 2251799813685248 :: rat) < fl (297 / 200)"
proof -
  have "calculateCallCost (fl (90 / 60)) = 3343922723322593 / 2251799813685248"
    by (simp only: double_examples)
  then show ?thesis
    by (simp add: sample_webhook_patch double_examples)
qed

section \<open>Properties of a repeated delivery\<close>

lemma apply_update_map: "apply_update u cid T = map (updated_row u cid) T"
  by (simp add: apply_update_def updated_row_def)

lemma updated_row_keys:
  "lead_id (updated_row u cid l) = lead_id l"
  "lead_name (updated_row u cid l) = lead_name l"
  "phone_number (updated_row u cid l) = phone_number l"
  "column c (updated_row u cid l) = column c l"
  "no_phone (updated_row u cid l) = no_phone l"
  "phone_of (updated_row u cid l) = phone_of l"
  by (simp_all add: updated_row_def column_def no_phone_def phone_of_def)

lemma updated_row_twice: "updated_row u cid (updated_row u cid l) = updated_row u cid l"
  by (simp add: updated_row_def)

lemma apply_update_twice: "apply_update u cid (apply_update u cid T) = apply_update u cid T"
  by (simp add: apply_update_map updated_row_twice)

lemma find_map_inv:
  "(\<And>l. P (g l) = P l) \<Longrightarrow> find P (map g T) = map_option g (find P T)"
  by (induction T) simp_all

lemma find_take_map_inv:
  "(\<And>l. P (g l) = P l) \<Longrightarrow> find P (take n (map g T)) = map_option g (find P (take n T))"
  by (simp add: take_map find_map_inv)

lemma updated_row_matches:
  "exact_match p (updated_row u cid l) = exact_match p l"
  "last_ten_match p (updated_row u cid l) = last_ten_match p l"
  "suffix_match p (updated_row u cid l) = suffix_match p l"
  "last_four_match p (updated_row u cid l) = last_four_match p l"
  by (simp_all add: exact_match_def last_ten_match_def suffix_match_def last_four_match_def
      updated_row_keys)

lemma name_candidates_map:
  "name_candidates n (map (updated_row u cid) T) = map (updated_row u cid) (name_candidates n T)"
  by (simp add: name_candidates_def filter_map comp_def updated_row_keys take_map)

lemma findLeadByPhoneNumber_any:
  "findLeadByPhoneNumber h (table_repo T) v =
     (case to_string h v of
        Inl e \<Rightarrow> Inl e
      | Inr p \<Rightarrow>
         (case find (exact_match p) T of
            Some l \<Rightarrow> Inr (Some l)
          | None \<Rightarrow>
             (case v of
                JStr s \<Rightarrow> Inr (case find (last_ten_match s) T of
                                  Some l \<Rightarrow> Some l
                                | None \<Rightarrow> find (suffix_match s) (take 25 T))
              | _ \<Rightarrow> Inl TypeError)))"
proof (cases "to_string h v")
  case (Inl e)
  then show ?thesis by (simp add: findLeadByPhoneNumber_def)
next
  case (Inr p)
  have e: "(\<lambda>l. column ''phone_number'' l = Some p) = exact_match p"
    by (auto simp: column_simps exact_match_def)
  have f: "first_row (Rows (take (Suc 0) (filter (exact_match p) T))) = find (exact_match p) T"
    by (rule first_row_take_filter)
  show ?thesis
  proof (cases v)
    case (JStr s)
    with Inr have "p = s" by (simp add: to_string_def)
    with JStr show ?thesis
      using findLeadByPhoneNumber_table [of h T s] Inr
      by (simp add: to_string_def split: option.splits)
  qed (use Inr in \<open>simp_all add: findLeadByPhoneNumber_def table_repo_def e f
        split: option.splits\<close>)
qed

lemma findLeadByPhoneNumber_apply_update:
  "findLeadByPhoneNumber h (table_repo (apply_update u cid T)) v
     = (case findLeadByPhoneNumber h (table_repo T) v of
          Inl e \<Rightarrow> Inl e
        | Inr x \<Rightarrow> Inr (map_option (updated_row u cid) x))"
  by (simp add: findLeadByPhoneNumber_any apply_update_map find_map_inv find_take_map_inv
      updated_row_matches split: sum.splits option.splits jsval.splits)

lemma findLeadByNameAndPhone_any:
  "findLeadByNameAndPhone h (table_repo T) nm v =
     (case v of
        JStr p \<Rightarrow>
          (case to_string h nm of
             Inl e \<Rightarrow> Inl e
           | Inr n \<Rightarrow> Inr (find (last_four_match p) (name_candidates n T)))
      | _ \<Rightarrow> Inl TypeError)"
proof -
  have "(\<lambda>l. case column ''name'' l of None \<Rightarrow> False
           | Some x \<Rightarrow> ilike (CHR ''%'' # n @ ''%'') x)
        = (\<lambda>l. sublist (toLowerCase n) (toLowerCase (lead_name l)))" for n
    by (simp add: column_simps ilike_contains)
  then show ?thesis
    by (simp add: findLeadByNameAndPhone_def table_repo_def Let_def
        scan_last_four_find name_candidates_def split: jsval.splits sum.splits)
qed

lemma findLeadByNameAndPhone_apply_update:
  "findLeadByNameAndPhone h (table_repo (apply_update u cid T)) nm v
     = (case findLeadByNameAndPhone h (table_repo T) nm v of
          Inl e \<Rightarrow> Inl e
        | Inr x \<Rightarrow> Inr (map_option (updated_row u cid) x))"
  by (simp add: findLeadByNameAndPhone_any apply_update_map name_candidates_map find_map_inv
      updated_row_matches split: sum.splits option.splits jsval.splits)

lemma resolve_contact_apply_update:
  "resolve_contact h (table_repo (apply_update u cid T)) payload c p
     = resolve_contact h (table_repo T) payload c p"
proof -
  have 1: "(case findLeadByPhoneNumber h (table_repo (apply_update u cid T)) p of
              Inl e \<Rightarrow> Inl e
            | Inr None \<Rightarrow> x
            | Inr (Some l) \<Rightarrow> Inr (JStr (lead_id l)))
         = (case findLeadByPhoneNumber h (table_repo T) p of
              Inl e \<Rightarrow> Inl e
            | Inr None \<Rightarrow> x
            | Inr (Some l) \<Rightarrow> Inr (JStr (lead_id l)))" for x :: "exn + jsval"
    by (cases "findLeadByPhoneNumber h (table_repo T) p")
       (auto simp: findLeadByPhoneNumber_apply_update updated_row_keys split: option.splits)
  have 2: "(case findLeadByNameAndPhone h (table_repo (apply_update u cid T)) nm p of
              Inl e \<Rightarrow> Inl e
            | Inr None \<Rightarrow> x
            | Inr (Some l) \<Rightarrow> Inr (JStr (lead_id l)))
         = (case findLeadByNameAndPhone h (table_repo T) nm p of
              Inl e \<Rightarrow> Inl e
            | Inr None \<Rightarrow> x
            | Inr (Some l) \<Rightarrow> Inr (JStr (lead_id l)))" for x :: "exn + jsval" and nm
    by (cases "findLeadByNameAndPhone h (table_repo T) nm p")
       (auto simp: findLeadByNameAndPhone_apply_update updated_row_keys split: option.splits)
  show ?thesis
    unfolding resolve_contact_def 1 2 ..
qed

lemma update_eq_table: "update_eq (table_repo T) u c v = UpdateDone"
  by (simp add: update_eq_def table_repo_def)

lemma process_apply_update:
  "process h (table_repo (apply_update u cid T)) req = process h (table_repo T) req"
  unfolding process_def resolve_contact_apply_update update_eq_table ..

lemma serve_apply_update:
  "serve h (table_repo (apply_update u cid T)) req = serve h (table_repo T) req"
  by (simp add: serve_def process_apply_update)

lemma deliver_twice: "deliver h (deliver h T req) req = deliver h T req"
  by (simp add: deliver_def serve_apply_update apply_update_twice split: option.splits)

lemma count_status_split:
  assumes "filter (\<lambda>l. lead_id l = cid) T = xs"
  shows "length (filter (\<lambda>l. status l = s) T)
     = length (filter (\<lambda>l. status l = s) xs)
       + length (filter (\<lambda>l. lead_id l \<noteq> cid \<and> status l = s) T)"
  using assms by (induction T arbitrary: xs) auto

lemma count_status_apply_update:
  "length (filter (\<lambda>l. status l = s) (apply_update u cid T))
     = (if new_status u = s then length (filter (\<lambda>l. lead_id l = cid) T) else 0)
       + length (filter (\<lambda>l. lead_id l \<noteq> cid \<and> status l = s) T)"
  by (induction T) (simp_all add: apply_update_def)

lemma completed_once:
  assumes "filter (\<lambda>l. lead_id l = cid) T = [row]" and "status row \<noteq> ''Completed''"
    and "new_status u = ''Completed''"
  shows "completed (updateStats (apply_update u cid T)) = completed (updateStats T) + 1"
  using assms count_status_split [OF assms(1), of "''Completed''"]
  by (simp add: updateStats_def count_status_apply_update)

lemma double_sums:
  "fl (3 / 2) = 3 / 2"
  "fl (3343922723322593 / 2251799813685248) = 3343922723322593 / 2251799813685248"
  by code_simp+

text \<open>
  Claim C9. The update that the handler sends writes absolute values (status,
  disposition, duration, cost) into the rows of the lead, so writing it a second time
  leaves the rows as the first write left them. Delivering the same webhook a second
  time, over the table the first delivery left, resolves the same lead (the lookup reads
  only the id, the name and the phone number of a row, which the update does not touch),
  sends the same update and leaves the same table; the statistics recomputed from the
  rows are therefore the same. When the outcome is \<open>Completed\<close> and the lead has one
  row, not yet completed, the count of completed leads is one more than before the first
  delivery, after one delivery and after two: nothing is counted twice.
\<close>

theorem webhook_update_idempotent:
  "apply_update u cid (apply_update u cid T) = apply_update u cid T
   \<and> deliver h (deliver h T req) req = deliver h T req
   \<and> updateStats (deliver h (deliver h T req) req) = updateStats (deliver h T req)
   \<and> (patch (serve h (table_repo T) req) = Some (cid, u) \<and> new_status u = ''Completed''
        \<and> filter (\<lambda>l. lead_id l = cid) T = [row] \<and> status row \<noteq> ''Completed''
      \<longrightarrow> completed (updateStats (deliver h T req)) = completed (updateStats T) + 1
          \<and> completed (updateStats (deliver h (deliver h T req) req))
              = completed (updateStats T) + 1)"
proof (intro conjI impI)
  show "apply_update u cid (apply_update u cid T) = apply_update u cid T"
    by (rule apply_update_twice)
  show twice: "deliver h (deliver h T req) req = deliver h T req"
    by (rule deliver_twice)
  then show "updateStats (deliver h (deliver h T req) req) = updateStats (deliver h T req)"
    by simp
  assume a: "patch (serve h (table_repo T) req) = Some (cid, u) \<and> new_status u = ''Completed''
        \<and> filter (\<lambda>l. lead_id l = cid) T = [row] \<and> status row \<noteq> ''Completed''"
  then have "deliver h T req = apply_update u cid T"
    by (simp add: deliver_def)
  with a show once: "completed (updateStats (deliver h T req)) = completed (updateStats T) + 1"
    using completed_once [of cid T row u] by simp
  with twice show "completed (updateStats (deliver h (deliver h T req) req))
              = completed (updateStats T) + 1"
    by simp
qed

theorem webhook_update_idempotent_witness:
  "deliver (sample_host sample_webhook) [sample_lead ''a'' ''In Progress'']
       (sample_request ''POST'')
     = [(sample_lead ''a'' ''Completed'')\<lparr>disposition := Some ''Do Not Contact'',
          duration := Some (3 / 2),
          cost := Some (3343922723322593 / 2251799813685248)\<rparr>]
   \<and> deliver (sample_host sample_webhook)
        (deliver (sample_host sample_webhook) [sample_lead ''a'' ''In Progress'']
           (sample_request ''POST''))
        (sample_request ''POST'')
     = [(sample_lead ''a'' ''Completed'')\<lparr>disposition := Some ''Do Not Contact'',
          duration := Some (3 / 2),
          cost := Some (3343922723322593 / 2251799813685248)\<rparr>]
   \<and> updateStats (deliver (sample_host sample_webhook)
        (deliver (sample_host sample_webhook) [sample_lead ''a'' ''In Progress'']
           (sample_request ''POST''))
        (sample_request ''POST''))
     = \<lparr>completed = 1, inProgress = 0, remaining = 0, failed = 0,
        totalDuration = 3 / 2, totalCost = 3343922723322593 / 2251799813685248\<rparr>
   \<and> completed (updateStats (deliver (sample_host sample_webhook)
        (deliver (sample_host sample_webhook) [sample_lead ''a'' ''In Progress'']
           (sample_request ''POST''))
        (sample_request ''POST'')))
     = completed (updateStats [sample_lead ''a'' ''In Progress'']) + 1"
proof -
  let ?h = "sample_host sample_webhook"
  let ?T = "[sample_lead ''a'' ''In Progress'']"
  let ?req = "sample_request ''POST''"
  let ?row = "(sample_lead ''a'' ''Completed'')\<lparr>disposition := Some ''Do Not Contact'',
          duration := Some (3 / 2),
          cost := Some (3343922723322593 / 2251799813685248)\<rparr>"
  have once: "deliver ?h ?T ?req = [?row]"
    by (simp add: deliver_def sample_webhook_patch apply_update_def double_examples)
       (simp add: sample_lead_def)
  from webhook_update_idempotent [where h = ?h and T = ?T and req = ?req]
  have "deliver ?h (deliver ?h ?T ?req) ?req = deliver ?h ?T ?req" by simp
  with once have twice: "deliver ?h (deliver ?h ?T ?req) ?req = [?row]" by simp
  have counted: "completed (updateStats (deliver ?h (deliver ?h ?T ?req) ?req))
      = completed (updateStats ?T) + 1"
    using webhook_update_idempotent [where h = ?h and T = ?T and req = ?req
        and cid = "''a''" and row = "sample_lead ''a'' ''In Progress''"
        and u = "\<lparr>new_status = ''Completed'', new_disposition = ''Do Not Contact'',
                   new_duration = Some (fl (90 / 60)),
                   new_cost = Some (calculateCallCost (fl (90 / 60)))\<rparr>"]
      sample_webhook_patch
    by (simp add: sample_lead_def)
  have "updateStats [?row] = \<lparr>completed = 1, inProgress = 0, remaining = 0, failed = 0,
        totalDuration = 3 / 2, totalCost = 3343922723322593 / 2251799813685248\<rparr>"
    by (simp add: updateStats_def or_zero_def sample_lead_def double_sums)
  with once twice counted show ?thesis by simp
qed

section \<open>Properties of the Call Dispatcher and the Pacing Scheduler\<close>

lemma toast_add_simps:
  "stored (toast_add t w) = stored w" "timers (toast_add t w) = timers w"
  "isExecuting (toast_add t w) = isExecuting w" "intervalId (toast_add t w) = intervalId w"
  "invoked (toast_add t w) = invoked w" "isCallInProgress (toast_add t w) = isCallInProgress w"
  "next_timer (toast_add t w) = next_timer w" "selectedPacing (toast_add t w) = selectedPacing w"
  "toasts (toast_add t w) = toasts w @ [t]"
  by (simp_all add: toast_add_def)

text \<open>
  Claim C8. When no lead is eligible (status \<open>Pending\<close> and a phone id), starting a run
  only shows the error toast: no timer is created, no run exists, no lead row changes, no
  call is sent, and the hook does not become executing.
\<close>

theorem startExecution_nothing_to_dispatch:
  "filter eligible leads = [] \<Longrightarrow>
     startExecution leads w = (None, w\<lparr>toasts := toasts w @ [NoPendingLeads]\<rparr>)
     \<and> timers (snd (startExecution leads w)) = timers w
     \<and> intervalId (snd (startExecution leads w)) = intervalId w
     \<and> stored (snd (startExecution leads w)) = stored w
     \<and> invoked (snd (startExecution leads w)) = invoked w
     \<and> isExecuting (snd (startExecution leads w)) = isExecuting w
     \<and> (\<not> isExecuting w \<longrightarrow> \<not> isExecuting (snd (toggleExecution leads w)))"
  by (simp add: startExecution_def toggleExecution_def toast_add_def)

theorem startExecution_nothing_to_dispatch_witness:
  "startExecution [sample_lead ''a'' ''Completed'', (sample_lead ''b'' ''Pending'')\<lparr>phone_id := None\<rparr>]
       (sample_world [] ''1'')
     = (None, (sample_world [] ''1'')\<lparr>toasts := [NoPendingLeads]\<rparr>)"
  using startExecution_nothing_to_dispatch [of
      "[sample_lead ''a'' ''Completed'', (sample_lead ''b'' ''Pending'')\<lparr>phone_id := None\<rparr>]"
      "sample_world [] ''1''"]
  by (simp add: eligible_def sample_lead_def sample_world_def)







lemma parseInt_options:
  "parseInt ''1'' = Some (int 1)" "parseInt ''2'' = Some (int 2)"
  "parseInt ''3'' = Some (int 3)" "parseInt ''5'' = Some (int 5)"
  by (simp_all add: parseInt_def is_space_def is_digit_def digit_value_def Let_def)

lemma pacingInterval_rate:
  "parseInt s = Some (int R) \<Longrightarrow> 0 < R \<Longrightarrow>
     pacingInterval s = Some (fl (fl (1 / fl (of_nat R)) * 1000))"
  by (simp add: pacingInterval_def)

lemma double_intervals:
  "fl (fl (1 / fl (of_nat 1)) * 1000) = fl (1000 / of_nat 1)"
  "fl (fl (1 / fl (of_nat 2)) * 1000) = fl (1000 / of_nat 2)"
  "fl (fl (1 / fl (of_nat 3)) * 1000) = fl (1000 / of_nat 3)"
  "fl (fl (1 / fl (of_nat 5)) * 1000) = fl (1000 / of_nat 5)"
  "fl (1000 / of_nat 2) = 500"
  by code_simp+

lemma pacingInterval_options:
  assumes "s \<in> set pacing_options" and "parseInt s = Some (int R)"
  shows "pacingInterval s = Some (fl (1000 / of_nat R))"
proof -
  from assms(1) consider "s = ''1''" | "s = ''2''" | "s = ''3''" | "s = ''5''"
    by (auto simp: pacing_options_def)
  then have R: "(R = 1 \<or> R = 2 \<or> R = 3 \<or> R = 5) \<and> 0 < R"
    using assms(2) by cases (simp_all add: parseInt_options)
  then have "pacingInterval s = Some (fl (fl (1 / fl (of_nat R)) * 1000))"
    using assms(2) by (simp add: pacingInterval_rate)
  moreover from R have "fl (fl (1 / fl (of_nat R)) * 1000) = fl (1000 / of_nat R)"
    using double_intervals by (elim conjE disjE) (simp_all only:)
  ultimately show ?thesis by simp
qed

lemma triggerCall_parts:
  "triggerCall c leads i w =
     (case triggerCall_begin leads i w of
        (True, w3) \<Rightarrow> triggerCall_end c i w3
      | (False, w') \<Rightarrow> w')"
  by (simp add: triggerCall_def triggerCall_begin_def triggerCall_end_def Let_def
      split: option.splits)

lemma triggerCall_begin_frame:
  "timers (snd (triggerCall_begin leads i w)) = timers w"
  "isExecuting (snd (triggerCall_begin leads i w)) = isExecuting w"
  "intervalId (snd (triggerCall_begin leads i w)) = intervalId w"
  "stored (snd (triggerCall_begin leads i w)) = stored w"
  "invoked (snd (triggerCall_begin leads i w))
     = (if fst (triggerCall_begin leads i w) then invoked w @ [i] else invoked w)"
  by (auto simp: triggerCall_begin_def Let_def toast_add_def split: option.splits)

lemma triggerCall_end_frame:
  "timers (triggerCall_end c i w) = timers w"
  "isExecuting (triggerCall_end c i w) = isExecuting w"
  "intervalId (triggerCall_end c i w) = intervalId w"
  "invoked (triggerCall_end c i w) = invoked w"
  by (auto simp: triggerCall_end_def Let_def toast_add_def split: invoke_result.splits)

lemma startExecution_started:
  assumes "filter eligible leads \<noteq> []"
  shows "\<exists>r0 w0. startExecution leads w = (Some r0, w0)
           \<and> pendingLeads r0 = filter eligible leads \<and> currentIndex r0 = 0
           \<and> run_leads r0 = leads \<and> run_isCallInProgress r0 = isCallInProgress w
           \<and> (run_timer r0, pacingInterval (selectedPacing w)) \<in> set (timers w0)
           \<and> isExecuting w0 \<and> intervalId w0 = Some (run_timer r0)
           \<and> stored w0 = stored w \<and> invoked w0 = invoked w"
  using assms
  by (simp add: startExecution_def Let_def setInterval_def toast_add_def)

text \<open>A tick before the end of the snapshot, nothing being awaited.\<close>

lemma tick_advance:
  assumes "awaiting s = []" and "run_timer (sess_run s) \<in> fst ` set (timers (sess_world s))"
    and "currentIndex (sess_run s) < length (pendingLeads (sess_run s))"
  shows "sess_run (settled_tick c s) = (sess_run s)\<lparr>currentIndex := currentIndex (sess_run s) + 1\<rparr>"
    and "awaiting (settled_tick c s) = []"
    and "timers (sess_world (settled_tick c s)) = timers (sess_world s)"
    and "isExecuting (sess_world (settled_tick c s)) = isExecuting (sess_world s)"
    and "intervalId (sess_world (settled_tick c s)) = intervalId (sess_world s)"
    and "invoked (sess_world (settled_tick c s)) = invoked (sess_world s)
         \<or> invoked (sess_world (settled_tick c s))
            = invoked (sess_world s)
              @ [lead_id (pendingLeads (sess_run s) ! currentIndex (sess_run s))]"
    and "sess_world (settled_tick c s) =
           (if run_isCallInProgress (sess_run s) then sess_world s
            else triggerCall c (run_leads (sess_run s))
                   (lead_id (pendingLeads (sess_run s) ! currentIndex (sess_run s)))
                   (sess_world s))"
proof -
  let ?r = "sess_run s" and ?w = "sess_world s"
  let ?i = "lead_id (pendingLeads ?r ! currentIndex ?r)"
  obtain ok w1 where b: "triggerCall_begin (run_leads ?r) ?i ?w = (ok, w1)"
    by (cases "triggerCall_begin (run_leads ?r) ?i ?w")
  have f: "timer_fires s =
      (if run_isCallInProgress ?r then s\<lparr>sess_run := ?r\<lparr>currentIndex := currentIndex ?r + 1\<rparr>\<rparr>
       else if ok then s\<lparr>sess_world := w1, awaiting := [?i]\<rparr>
       else s\<lparr>sess_run := ?r\<lparr>currentIndex := currentIndex ?r + 1\<rparr>, sess_world := w1\<rparr>)"
    using assms b by (simp add: timer_fires_def Let_def)
  have t: "settled_tick c s =
      (if run_isCallInProgress ?r then s\<lparr>sess_run := ?r\<lparr>currentIndex := currentIndex ?r + 1\<rparr>\<rparr>
       else if ok then
         s\<lparr>sess_run := ?r\<lparr>currentIndex := currentIndex ?r + 1\<rparr>,
           sess_world := triggerCall_end c ?i w1, awaiting := []\<rparr>
       else s\<lparr>sess_run := ?r\<lparr>currentIndex := currentIndex ?r + 1\<rparr>, sess_world := w1\<rparr>)"
    using assms(1) by (simp add: settled_tick_def f call_returns_def)
  have fr: "timers w1 = timers ?w" "isExecuting w1 = isExecuting ?w"
    "intervalId w1 = intervalId ?w" "invoked w1 = (if ok then invoked ?w @ [?i] else invoked ?w)"
    using triggerCall_begin_frame [of "run_leads ?r" ?i ?w] b by simp_all
  show "sess_run (settled_tick c s) = ?r\<lparr>currentIndex := currentIndex ?r + 1\<rparr>"
    and "awaiting (settled_tick c s) = []"
    using assms(1) by (simp_all add: t)
  show "timers (sess_world (settled_tick c s)) = timers ?w"
    and "isExecuting (sess_world (settled_tick c s)) = isExecuting ?w"
    and "intervalId (sess_world (settled_tick c s)) = intervalId ?w"
    by (simp_all add: t fr triggerCall_end_frame)
  show "invoked (sess_world (settled_tick c s)) = invoked ?w
         \<or> invoked (sess_world (settled_tick c s)) = invoked ?w @ [?i]"
    by (simp add: t fr triggerCall_end_frame)
  show "sess_world (settled_tick c s) =
           (if run_isCallInProgress ?r then ?w
            else triggerCall c (run_leads ?r) ?i ?w)"
    by (simp add: t triggerCall_parts b)
qed

lemma tick_finish:
  assumes "awaiting s = []" and "run_timer (sess_run s) \<in> fst ` set (timers (sess_world s))"
    and "length (pendingLeads (sess_run s)) \<le> currentIndex (sess_run s)"
  shows "settled_tick c s =
           s\<lparr>sess_world := toast_add ExecutionCompleted
                ((clearInterval (run_timer (sess_run s)) (sess_world s))
                   \<lparr>intervalId := None, isExecuting := False\<rparr>)\<rparr>"
  using assms by (simp add: settled_tick_def timer_fires_def Let_def)

lemma ticks_running:
  assumes "awaiting s = []" and "run_timer (sess_run s) \<in> fst ` set (timers (sess_world s))"
    and "currentIndex (sess_run s) + k \<le> length (pendingLeads (sess_run s))"
  shows "sess_run (settled_ticks c k s) = (sess_run s)\<lparr>currentIndex := currentIndex (sess_run s) + k\<rparr>
         \<and> awaiting (settled_ticks c k s) = []
         \<and> timers (sess_world (settled_ticks c k s)) = timers (sess_world s)
         \<and> isExecuting (sess_world (settled_ticks c k s)) = isExecuting (sess_world s)
         \<and> intervalId (sess_world (settled_ticks c k s)) = intervalId (sess_world s)"
  using assms
proof (induction k)
  case 0
  then show ?case by simp
next
  case (Suc k)
  let ?s = "settled_ticks c k s"
  from Suc have ih: "sess_run ?s = (sess_run s)\<lparr>currentIndex := currentIndex (sess_run s) + k\<rparr>"
    "awaiting ?s = []"
    "timers (sess_world ?s) = timers (sess_world s)"
    "isExecuting (sess_world ?s) = isExecuting (sess_world s)"
    "intervalId (sess_world ?s) = intervalId (sess_world s)"
    by simp_all
  have a: "run_timer (sess_run ?s) \<in> fst ` set (timers (sess_world ?s))"
    "currentIndex (sess_run ?s) < length (pendingLeads (sess_run ?s))"
    using Suc.prems ih by simp_all
  show ?case
    using tick_advance(1-5) [OF ih(2) a, of c] ih by simp
qed

lemma ticks_end:
  assumes "awaiting s = []" and "run_timer (sess_run s) \<in> fst ` set (timers (sess_world s))"
    and "currentIndex (sess_run s) = 0"
  shows "sess_run (settled_ticks c (Suc (length (pendingLeads (sess_run s)))) s)
             = (sess_run s)\<lparr>currentIndex := length (pendingLeads (sess_run s))\<rparr>
         \<and> run_timer (sess_run s) \<notin> fst ` set (timers (sess_world
               (settled_ticks c (Suc (length (pendingLeads (sess_run s)))) s)))
         \<and> \<not> isExecuting (sess_world (settled_ticks c (Suc (length (pendingLeads (sess_run s)))) s))
         \<and> intervalId (sess_world (settled_ticks c (Suc (length (pendingLeads (sess_run s)))) s)) = None
         \<and> invoked (sess_world (settled_ticks c (Suc (length (pendingLeads (sess_run s)))) s))
             = invoked (sess_world (settled_ticks c (length (pendingLeads (sess_run s))) s))"
proof -
  let ?n = "length (pendingLeads (sess_run s))"
  let ?s = "settled_ticks c ?n s"
  from ticks_running [of s ?n c] assms
  have run: "sess_run ?s = (sess_run s)\<lparr>currentIndex := ?n\<rparr>" "awaiting ?s = []"
    "timers (sess_world ?s) = timers (sess_world s)"
    by simp_all
  have "settled_tick c ?s = ?s\<lparr>sess_world := toast_add ExecutionCompleted
                ((clearInterval (run_timer (sess_run ?s)) (sess_world ?s))
                   \<lparr>intervalId := None, isExecuting := False\<rparr>)\<rparr>"
    using assms run by (intro tick_finish) simp_all
  then show ?thesis
    using run by (auto simp: toast_add_simps clearInterval_def)
qed

lemma five_pending_eligible: "filter eligible five_pending = five_pending"
  by (simp add: five_pending_def sample_lead_def eligible_def)

lemma five_pending_length: "length five_pending = 5"
  by (simp add: five_pending_def)

lemma five_pending_not_Nil: "five_pending \<noteq> []"
  using five_pending_length by auto

lemma five_pending_nonempty: "filter eligible five_pending \<noteq> []"
  by (simp add: five_pending_eligible five_pending_not_Nil)

lemma started_session:
  assumes "filter eligible leads \<noteq> []"
  shows "\<exists>s0. started leads w = Some s0 \<and> awaiting s0 = []
           \<and> pendingLeads (sess_run s0) = filter eligible leads
           \<and> currentIndex (sess_run s0) = 0
           \<and> (run_timer (sess_run s0), pacingInterval (selectedPacing w))
                \<in> set (timers (sess_world s0))
           \<and> isExecuting (sess_world s0)
           \<and> invoked (sess_world s0) = invoked w"
  using startExecution_started [OF assms, of w]
  by (auto simp: started_def)

text \<open>
  Claim C2, as the code has it. For a non-empty snapshot of \<open>n\<close> eligible leads,
  \<open>startExecution\<close> creates a timer whose interval is \<open>(1 / R) * 1000\<close> milliseconds
  for the rate \<open>R\<close> read from the selector, which is the double \<open>1000 / R\<close> for each
  rate the selector offers. In a run whose dispatches return before the timer fires
  again, the cursor is \<open>k\<close> after \<open>k \<le> n\<close> ticks, the timer still scheduled and the hook
  still executing; tick \<open>n + 1\<close> finds the cursor at the end of the snapshot, cancels the
  timer and ends the execution, without moving the cursor or dispatching. Such a tick
  before the end advances the cursor by exactly one, whether it dispatched the current
  lead or not, and leaves no call awaited.
\<close>

theorem pacing_run_ticks:
  "(filter eligible leads \<noteq> []
     \<longrightarrow> (\<exists>s0. started leads w = Some s0
           \<and> pendingLeads (sess_run s0) = filter eligible leads
           \<and> (run_timer (sess_run s0), pacingInterval (selectedPacing w))
                \<in> set (timers (sess_world s0))
           \<and> (\<forall>k. k \<le> length (pendingLeads (sess_run s0)) \<longrightarrow>
                  cursor_and_state (settled_ticks c k s0) = (k, True, True))
           \<and> cursor_and_state (settled_ticks c (Suc (length (pendingLeads (sess_run s0)))) s0)
                = (length (pendingLeads (sess_run s0)), False, False)
           \<and> invoked (sess_world (settled_ticks c (Suc (length (pendingLeads (sess_run s0)))) s0))
                = invoked (sess_world (settled_ticks c (length (pendingLeads (sess_run s0))) s0))))
   \<and> (s \<in> set pacing_options \<and> parseInt s = Some (int R)
     \<longrightarrow> pacingInterval s = Some (fl (1000 / of_nat R)))
   \<and> (parseInt s = Some (int R) \<and> 0 < R
     \<longrightarrow> pacingInterval s = Some (fl (fl (1 / fl (of_nat R)) * 1000)))
   \<and> (awaiting t = [] \<and> run_timer (sess_run t) \<in> fst ` set (timers (sess_world t))
        \<and> currentIndex (sess_run t) < length (pendingLeads (sess_run t))
     \<longrightarrow> currentIndex (sess_run (settled_tick c t)) = currentIndex (sess_run t) + 1
         \<and> awaiting (settled_tick c t) = []
         \<and> (invoked (sess_world (settled_tick c t)) = invoked (sess_world t)
            \<or> invoked (sess_world (settled_tick c t))
               = invoked (sess_world t)
                 @ [lead_id (pendingLeads (sess_run t) ! currentIndex (sess_run t))]))"
proof (intro conjI impI)
  assume a: "filter eligible leads \<noteq> []"
  then obtain s0 where s: "started leads w = Some s0" "awaiting s0 = []"
      "pendingLeads (sess_run s0) = filter eligible leads"
      "currentIndex (sess_run s0) = 0"
      "(run_timer (sess_run s0), pacingInterval (selectedPacing w))
          \<in> set (timers (sess_world s0))"
      "isExecuting (sess_world s0)"
    using started_session [of leads w] by blast
  from s(5) have act: "run_timer (sess_run s0) \<in> fst ` set (timers (sess_world s0))"
    by force
  have run: "cursor_and_state (settled_ticks c k s0) = (k, True, True)"
    if "k \<le> length (pendingLeads (sess_run s0))" for k
    using ticks_running [of s0 k c] act s(2,4,6) that
    by (simp add: cursor_and_state_def)
  have fin: "cursor_and_state (settled_ticks c (Suc (length (pendingLeads (sess_run s0)))) s0)
                = (length (pendingLeads (sess_run s0)), False, False)"
    using ticks_end [of s0 c] act s(2,4) by (simp add: cursor_and_state_def)
  from s run fin ticks_end [of s0 c] act
  show "\<exists>s0. started leads w = Some s0
           \<and> pendingLeads (sess_run s0) = filter eligible leads
           \<and> (run_timer (sess_run s0), pacingInterval (selectedPacing w))
                \<in> set (timers (sess_world s0))
           \<and> (\<forall>k. k \<le> length (pendingLeads (sess_run s0)) \<longrightarrow>
                  cursor_and_state (settled_ticks c k s0) = (k, True, True))
           \<and> cursor_and_state (settled_ticks c (Suc (length (pendingLeads (sess_run s0)))) s0)
                = (length (pendingLeads (sess_run s0)), False, False)
           \<and> invoked (sess_world (settled_ticks c (Suc (length (pendingLeads (sess_run s0)))) s0))
                = invoked (sess_world (settled_ticks c (length (pendingLeads (sess_run s0))) s0))"
    by (intro exI [of _ s0]) simp
next
  assume "s \<in> set pacing_options \<and> parseInt s = Some (int R)"
  then show "pacingInterval s = Some (fl (1000 / of_nat R))"
    by (simp add: pacingInterval_options)
next
  assume "parseInt s = Some (int R) \<and> 0 < R"
  then show "pacingInterval s = Some (fl (fl (1 / fl (of_nat R)) * 1000))"
    by (simp add: pacingInterval_rate)
next
  assume a: "awaiting t = [] \<and> run_timer (sess_run t) \<in> fst ` set (timers (sess_world t))
        \<and> currentIndex (sess_run t) < length (pendingLeads (sess_run t))"
  then show "currentIndex (sess_run (settled_tick c t)) = currentIndex (sess_run t) + 1"
    and "awaiting (settled_tick c t) = []"
    using tick_advance(1,2) [of t c] by simp_all
  from a show "invoked (sess_world (settled_tick c t)) = invoked (sess_world t)
            \<or> invoked (sess_world (settled_tick c t))
               = invoked (sess_world t)
                 @ [lead_id (pendingLeads (sess_run t) ! currentIndex (sess_run t))]"
    using tick_advance(6) [of t c] by simp
qed

lemma started_five:
  "started five_pending (sample_world five_pending ''2'')
     = Some \<lparr>sess_run = \<lparr>pendingLeads = five_pending, currentIndex = 0, run_timer = 0,
                           run_leads = five_pending, run_isCallInProgress = False\<rparr>,
             sess_world = (sample_world five_pending ''2'')
               \<lparr>isExecuting := True, intervalId := Some 0, timers := [(0, Some 500)],
                 next_timer := 1, toasts := [StartedProcessing 5]\<rparr>,
             awaiting = []\<rparr>"
proof -
  have "pacingInterval ''2'' = Some (fl (1000 / of_nat 2))"
    by (simp add: pacingInterval_options pacing_options_def parseInt_options)
  then have i: "pacingInterval ''2'' = Some 500"
    by (simp only: double_intervals)
  show ?thesis
    by (simp add: started_def startExecution_def five_pending_eligible five_pending_length
        Let_def setInterval_def toast_add_def sample_world_def i five_pending_not_Nil)
qed

lemma double_500: "fl 500 = 500"
  by code_simp

lemma slow_provider_run:
  "map_option (\<lambda>s. (invoked (sess_world s), cursor_and_state s))
       (run_schedule sample_client five_pending (sample_world five_pending ''2'')
          slow_provider_schedule)
     = Some ([''a'', ''a'', ''a'', ''b'', ''c'', ''d'', ''e''], (5, False, False))"
  "map_option (\<lambda>s. (invoked (sess_world s), currentIndex (sess_run s)))
       (run_schedule sample_client five_pending (sample_world five_pending ''2'')
          [TimerFires, TimerFires, TimerFires])
     = Some ([''a'', ''a'', ''a''], 0)"
  "map_option (\<lambda>s. (currentIndex (sess_run s), invoked (sess_world s)))
        (run_ticks sample_client five_pending (sample_world five_pending ''2'') 1)
     = Some (1, [''a''])"
  by code_simp+


theorem pacing_run_ticks_witness:
  "map_option (\<lambda>s. map snd (timers (sess_world s)))
        (started five_pending (sample_world five_pending ''2''))
     = Some [Some 500]
   \<and> map_option cursor_and_state
        (run_ticks sample_client five_pending (sample_world five_pending ''2'') 5)
     = Some (5, True, True)
   \<and> map_option cursor_and_state
        (run_ticks sample_client five_pending (sample_world five_pending ''2'') (Suc 5))
     = Some (5, False, False)
   \<and> map_option (\<lambda>s. (currentIndex (sess_run s), awaiting s))
        (run_ticks sample_client five_pending (sample_world five_pending ''2'') 1)
     = Some (1, [])
   \<and> pacingInterval ''2'' = Some 500"
proof -
  let ?c = sample_client
  let ?w = "sample_world five_pending ''2''"
  obtain s0 where a: "started five_pending ?w = Some s0"
      "pendingLeads (sess_run s0) = filter eligible five_pending"
      "\<forall>k. k \<le> length (pendingLeads (sess_run s0)) \<longrightarrow>
                  cursor_and_state (settled_ticks ?c k s0) = (k, True, True)"
      "cursor_and_state (settled_ticks ?c (Suc (length (pendingLeads (sess_run s0)))) s0)
                = (length (pendingLeads (sess_run s0)), False, False)"
    using pacing_run_ticks [where leads = five_pending and c = ?c and w = ?w]
      five_pending_nonempty
    by blast
  from a(2) have n: "length (pendingLeads (sess_run s0)) = 5"
    by (simp add: five_pending_eligible five_pending_length)
  have i: "pacingInterval ''2'' = Some 500"
    using pacing_run_ticks [where s = "''2''" and R = 2]
    by (simp add: pacing_options_def parseInt_options double_500)
  have 1: "map_option (\<lambda>s. map snd (timers (sess_world s))) (started five_pending ?w)
      = Some [Some 500]"
    by (simp add: started_five)
  from a(3) n have "cursor_and_state (settled_ticks ?c 5 s0) = (5, True, True)" by simp
  with a(1) have 2: "map_option cursor_and_state (run_ticks ?c five_pending ?w 5)
     = Some (5, True, True)"
    by (simp add: run_ticks_def)
  from a(1,4) n
  have 3: "map_option cursor_and_state (run_ticks ?c five_pending ?w (Suc 5))
     = Some (5, False, False)"
    by (simp add: run_ticks_def)
  have s0: "s0 = \<lparr>sess_run = \<lparr>pendingLeads = five_pending, currentIndex = 0, run_timer = 0,
                           run_leads = five_pending, run_isCallInProgress = False\<rparr>,
             sess_world = ?w
               \<lparr>isExecuting := True, intervalId := Some 0, timers := [(0, Some 500)],
                 next_timer := 1, toasts := [StartedProcessing 5]\<rparr>,
             awaiting = []\<rparr>"
    using a(1) by (simp add: started_five)
  have "currentIndex (sess_run (settled_tick ?c s0)) = currentIndex (sess_run s0) + 1
      \<and> awaiting (settled_tick ?c s0) = []"
    using pacing_run_ticks [where t = s0 and c = ?c]
    by (simp add: s0 five_pending_length)
  then have 4: "map_option (\<lambda>s. (currentIndex (sess_run s), awaiting s))
        (run_ticks ?c five_pending ?w 1) = Some (1, [])"
    using a(1) by (simp add: run_ticks_def s0)
  from 1 2 3 4 i show ?thesis by simp
qed

theorem pacing_run_sixth_tick_counterexample:
  "map_option cursor_and_state
        (run_ticks sample_client five_pending (sample_world five_pending ''2'') 5)
     = Some (length five_pending, True, True)
   \<and> map_option cursor_and_state
        (run_ticks sample_client five_pending (sample_world five_pending ''2'') 6)
     = Some (length five_pending, False, False)
   \<and> map_option (\<lambda>s. (invoked (sess_world s), currentIndex (sess_run s)))
       (run_schedule sample_client five_pending (sample_world five_pending ''2'')
          [TimerFires, TimerFires, TimerFires])
     = Some ([''a'', ''a'', ''a''], 0)
   \<and> map_option (\<lambda>s. (invoked (sess_world s), cursor_and_state s))
       (run_schedule sample_client five_pending (sample_world five_pending ''2'')
          slow_provider_schedule)
     = Some ([''a'', ''a'', ''a'', ''b'', ''c'', ''d'', ''e''], (5, False, False))"
proof -
  let ?c = sample_client
  let ?w = "sample_world five_pending ''2''"
  obtain s0 where s: "started five_pending ?w = Some s0" "awaiting s0 = []"
      "pendingLeads (sess_run s0) = filter eligible five_pending"
      "currentIndex (sess_run s0) = 0"
      "(run_timer (sess_run s0), pacingInterval (selectedPacing ?w))
          \<in> set (timers (sess_world s0))"
      "isExecuting (sess_world s0)"
    using started_session [OF five_pending_nonempty, of ?w] by blast
  from s(3) have n: "length (pendingLeads (sess_run s0)) = 5"
    by (simp add: five_pending_eligible five_pending_length)
  from s(5) have act: "run_timer (sess_run s0) \<in> fst ` set (timers (sess_world s0))"
    by force
  from ticks_running [of s0 5 ?c] act s(2,4,6) n
  have 5: "cursor_and_state (settled_ticks ?c 5 s0) = (5, True, True)"
    by (simp add: cursor_and_state_def)
  have six: "(6::nat) = Suc 5" by simp
  from ticks_end [of s0 ?c] act s(2,4) n
  have 6: "cursor_and_state (settled_ticks ?c 6 s0) = (5, False, False)"
    by (simp only: six) (simp add: cursor_and_state_def)
  from s(1) 5 6 slow_provider_run(1,2) show ?thesis
    by (simp add: run_ticks_def five_pending_length)
qed

end
